theory Spec2Isabelle
  imports Complex_Main "HOL-Library.Log_Nat" "HOL-Library.Multiset"
begin

section \<open>Python values shared by the embedded modules\<close>

text \<open>
  The exceptions of the Python runtime that the embedded functions can raise. A function
  that can raise returns \<open>py_error + 'a\<close>, with \<open>Inl\<close> for the exception.
\<close>

datatype py_error = AttributeError | ValueError | TypeError | KeyError | ZeroDivisionError
  | FetchError

text \<open>
  Python floats (clock readings, scores, similarities) are modelled as exact rationals.
  \<open>int(x)\<close> on a float truncates towards zero.
\<close>

definition py_int :: "rat \<Rightarrow> int" where
  "py_int x = (if 0 \<le> x then \<lfloor>x\<rfloor> else \<lceil>x\<rceil>)"

text \<open>\<open>min(xs)\<close> of a list raises \<open>ValueError\<close> on the empty list.\<close>

fun py_min :: "rat list \<Rightarrow> py_error + rat" where
  "py_min [] = Inl ValueError"
| "py_min (x # xs) = Inr (fold min xs x)"


section \<open>Rate limiting middleware (api/middlewares/rate\_limit.py)\<close>

text \<open>
  \<open>RateLimiter\<close> holds the two limits and the dictionary \<open>requests\<close> from client IP to
  the list of recorded time stamps.
\<close>

record RateLimiter =
  rate_limit :: int
  time_window :: int
  requests :: "string \<rightharpoonup> rat list"

text \<open>
  \<open>is_rate_limited(ip)\<close>, with the reading of \<open>time.time()\<close> as the argument
  \<open>current_time\<close>. The method first creates the entry of a new IP, then rebinds the entry
  to the time stamps younger than the window, then either answers \<open>(True, retry_after)\<close>
  without recording anything or appends the current time stamp and answers
  \<open>(False, None)\<close>. The updated limiter is returned with the answer.
\<close>

definition is_rate_limited ::
  "RateLimiter \<Rightarrow> string \<Rightarrow> rat \<Rightarrow> RateLimiter \<times> (py_error + bool \<times> int option)" where
  "is_rate_limited rl ip current_time =
     (let stored = (case requests rl ip of None \<Rightarrow> [] | Some tss \<Rightarrow> tss);
          recent = filter (\<lambda>ts. current_time - ts < of_int (time_window rl)) stored;
          rl1 = rl\<lparr>requests := (requests rl)(ip \<mapsto> recent)\<rparr>
      in if rate_limit rl \<le> int (length recent) then
           (case py_min recent of
              Inl e \<Rightarrow> (rl1, Inl e)
            | Inr oldest_timestamp \<Rightarrow>
                (let retry_after = py_int (of_int (time_window rl) - (current_time - oldest_timestamp))
                 in (rl1, Inr (True, Some (max 1 retry_after)))))
         else (rl1\<lparr>requests := (requests rl1)(ip \<mapsto> recent @ [current_time])\<rparr>,
               Inr (False, None)))"

text \<open>
  A client issuing one call after the other: the answers in order, and the limiter after
  the last call.
\<close>

fun calls :: "RateLimiter \<Rightarrow> string \<Rightarrow> rat list
    \<Rightarrow> RateLimiter \<times> (py_error + bool \<times> int option) list" where
  "calls rl ip [] = (rl, [])"
| "calls rl ip (t # ts) =
     (let (rl1, r) = is_rate_limited rl ip t;
          (rl2, rs) = calls rl1 ip ts
      in (rl2, r # rs))"

text \<open>
  \<open>RateLimitMiddleware.__call__\<close> for a path that is not excluded: the request is
  rejected with status 429 and the header \<open>Retry-After\<close> when the limiter answers
  limited, and is passed on otherwise.
\<close>

datatype response = TooManyRequests "int option" | CallNext

definition middleware_call ::
  "RateLimiter \<Rightarrow> string list \<Rightarrow> string \<Rightarrow> string \<Rightarrow> rat
    \<Rightarrow> RateLimiter \<times> (py_error + response)" where
  "middleware_call rl exclude_paths path client_ip current_time =
     (if path \<in> set exclude_paths then (rl, Inr CallNext)
      else (case is_rate_limited rl client_ip current_time of
              (rl1, Inl e) \<Rightarrow> (rl1, Inl e)
            | (rl1, Inr (is_limited, retry_after)) \<Rightarrow>
                if is_limited then (rl1, Inr (TooManyRequests retry_after))
                else (rl1, Inr CallNext)))"


section \<open>Sentiment analyzer (processor/pipeline/sentiment\_analyzer.py)\<close>

datatype sentiment = positive | negative | neutral

text \<open>
  \<open>_analyze_with_vader\<close>. The VADER library is not part of the repository: the outcome of
  \<open>polarity_scores(text)["compound"]\<close> is the argument \<open>scores\<close>, either an exception or
  the compound score. Any exception is answered by \<open>("neutral", 0.0)\<close>.
\<close>

definition analyze_with_vader :: "py_error + rat \<Rightarrow> sentiment \<times> rat" where
  "analyze_with_vader scores =
     (case scores of
        Inl e \<Rightarrow> (neutral, 0)
      | Inr compound \<Rightarrow>
          ((if compound \<ge> 5 / 100 then positive
            else if compound \<le> - (5 / 100) then negative
            else neutral),
           \<bar>compound\<bar>))"



section \<open>Dynamically typed values and dictionaries\<close>

text \<open>
  The values that configuration entries, decoded JSON responses and the fields of an
  article dictionary can hold. A dictionary with string keys is an association list with
  at most one entry per key, in insertion order.
\<close>

datatype pyval = PNone | PBool bool | PInt int | PFloat rat | PStr string
  | PList "pyval list" | PDict "(string \<times> pyval) list"

type_synonym pydict = "(string \<times> pyval) list"

text \<open>Truth value testing, as done by \<open>if x\<close>, \<open>not x\<close>, \<open>x or y\<close> and \<open>bool(x)\<close>.\<close>

fun truthy :: "pyval \<Rightarrow> bool" where
  "truthy PNone = False"
| "truthy (PBool b) = b"
| "truthy (PInt i) = (i \<noteq> 0)"
| "truthy (PFloat x) = (x \<noteq> 0)"
| "truthy (PStr s) = (s \<noteq> [])"
| "truthy (PList xs) = (xs \<noteq> [])"
| "truthy (PDict kvs) = (kvs \<noteq> [])"

text \<open>\<open>d.get(k)\<close> with the default \<open>None\<close>, \<open>d.get(k, default)\<close>, \<open>k in d\<close> and \<open>d[k] = v\<close>.\<close>

definition dict_get :: "pydict \<Rightarrow> string \<Rightarrow> pyval" where
  "dict_get d k = (case map_of d k of None \<Rightarrow> PNone | Some v \<Rightarrow> v)"

definition dict_get_default :: "pydict \<Rightarrow> string \<Rightarrow> pyval \<Rightarrow> pyval" where
  "dict_get_default d k dflt = (case map_of d k of None \<Rightarrow> dflt | Some v \<Rightarrow> v)"

definition dict_has :: "pydict \<Rightarrow> string \<Rightarrow> bool" where
  "dict_has d k = (map_of d k \<noteq> None)"

fun dict_set :: "pydict \<Rightarrow> string \<Rightarrow> pyval \<Rightarrow> pydict" where
  "dict_set [] k v = [(k, v)]"
| "dict_set (p # ps) k v = (if fst p = k then (k, v) # ps else p # dict_set ps k v)"

text \<open>\<open>d[k]\<close> raises \<open>KeyError\<close> for a missing key.\<close>

definition dict_item :: "pydict \<Rightarrow> string \<Rightarrow> py_error + pyval" where
  "dict_item d k = (case map_of d k of None \<Rightarrow> Inl KeyError | Some v \<Rightarrow> Inr v)"


section \<open>Source configuration and crawler scheduler\<close>

text \<open>
  The dataclass \<open>SourceConfig\<close> (crawler/settings/sources\_config.py) with the fields it
  declares; \<open>update_interval\<close> is documented as minutes. The fields \<open>type\<close> and \<open>id\<close>
  carry a prime here.
\<close>

record SourceConfig =
  name :: string
  url :: string
  type' :: string
  category :: "string option"
  update_interval :: int
  active :: bool
  id' :: "int option"
  rss_settings :: pydict
  html_settings :: pydict
  api_settings :: pydict

text \<open>
  Reading a data attribute of a \<open>SourceConfig\<close> object by name. The object has the
  declared fields and no others, so any other name raises \<open>AttributeError\<close>.
\<close>

definition getattr_SourceConfig :: "SourceConfig \<Rightarrow> string \<Rightarrow> py_error + pyval" where
  "getattr_SourceConfig c attr =
     (if attr = ''name'' then Inr (PStr (name c))
      else if attr = ''url'' then Inr (PStr (url c))
      else if attr = ''type'' then Inr (PStr (type' c))
      else if attr = ''category'' then
        Inr (case category c of None \<Rightarrow> PNone | Some s \<Rightarrow> PStr s)
      else if attr = ''update_interval'' then Inr (PInt (update_interval c))
      else if attr = ''active'' then Inr (PBool (active c))
      else if attr = ''id'' then Inr (case id' c of None \<Rightarrow> PNone | Some i \<Rightarrow> PInt i)
      else if attr = ''rss_settings'' then Inr (PDict (rss_settings c))
      else if attr = ''html_settings'' then Inr (PDict (html_settings c))
      else if attr = ''api_settings'' then Inr (PDict (api_settings c))
      else Inl AttributeError)"

text \<open>
  The part of \<open>CrawlerScheduler\<close> (crawler/scheduler.py) that \<open>crawl_source\<close> reads and
  writes. A source instance is represented by the configuration it holds
  (\<open>source.config\<close>); times are seconds.
\<close>

record CrawlerScheduler =
  default_interval :: int
  min_interval :: int
  jitter :: rat
  source_instances :: "string \<rightharpoonup> SourceConfig"
  last_crawl_time :: "string \<rightharpoonup> rat"
  next_crawl_time :: "string \<rightharpoonup> rat"

text \<open>An integer operand of \<open>max\<close>, \<open>min\<close> and the arithmetic of the interval.\<close>

fun int_operand :: "pyval \<Rightarrow> py_error + int" where
  "int_operand (PInt i) = Inr i"
| "int_operand (PBool b) = Inr (if b then 1 else 0)"
| "int_operand v = Inl TypeError"

text \<open>\<open>source.config.interval or self.default_interval\<close>.\<close>

definition interval_or_default :: "CrawlerScheduler \<Rightarrow> SourceConfig \<Rightarrow> py_error + int" where
  "interval_or_default s config =
     (case getattr_SourceConfig config ''interval'' of
        Inl e \<Rightarrow> Inl e
      | Inr v \<Rightarrow> if truthy v then int_operand v else Inr (default_interval s))"

text \<open>
  The body of the \<open>try\<close> block of \<open>crawl_source\<close>. \<open>processed\<close> is the outcome of
  \<open>await source.process()\<close>, \<open>now1\<close> and \<open>now2\<close> are the two readings of
  \<open>datetime.now()\<close> and \<open>u\<close> is the value drawn by \<open>random.uniform(-jitter, jitter)\<close>.
  The scheduler is returned as the statements executed before an exception left it.
\<close>

definition crawl_try ::
  "CrawlerScheduler \<Rightarrow> string \<Rightarrow> SourceConfig \<Rightarrow> py_error + pyval \<Rightarrow> rat \<Rightarrow> rat \<Rightarrow> rat
    \<Rightarrow> CrawlerScheduler \<times> (py_error + pyval)" where
  "crawl_try s source_id config processed now1 now2 u =
     (case processed of
        Inl e \<Rightarrow> (s, Inl e)
      | Inr articles \<Rightarrow>
          (let s1 = s\<lparr>last_crawl_time := (last_crawl_time s)(source_id \<mapsto> now1)\<rparr>
           in case interval_or_default s1 config of
                Inl e \<Rightarrow> (s1, Inl e)
              | Inr interval0 \<Rightarrow>
                  (let interval1 = max interval0 (min_interval s1);
                       interval2 = (if jitter s1 > 0
                                    then py_int (of_int interval1 * (1 + u))
                                    else interval1)
                   in (s1\<lparr>next_crawl_time :=
                             (next_crawl_time s1)(source_id \<mapsto> now2 + of_int interval2)\<rparr>,
                       Inr articles))))"

text \<open>
  The \<open>except Exception\<close> handler of \<open>crawl_source\<close>. The registered error callback is
  awaited first; it belongs to the caller, its own exceptions are caught and logged,
  and it does not touch the dictionaries of the scheduler. An exception raised by the
  handler itself leaves \<open>crawl_source\<close>.
\<close>

definition crawl_except ::
  "CrawlerScheduler \<Rightarrow> string \<Rightarrow> SourceConfig \<Rightarrow> rat \<Rightarrow> CrawlerScheduler \<times> (py_error + pyval)" where
  "crawl_except s source_id config now2 =
     (case interval_or_default s config of
        Inl e \<Rightarrow> (s, Inl e)
      | Inr interval0 \<Rightarrow>
          (let retry_interval = min interval0 600
           in (s\<lparr>next_crawl_time :=
                    (next_crawl_time s)(source_id \<mapsto> now2 + of_int retry_interval)\<rparr>,
               Inr (PList []))))"

definition crawl_source ::
  "CrawlerScheduler \<Rightarrow> string \<Rightarrow> py_error + pyval \<Rightarrow> rat \<Rightarrow> rat \<Rightarrow> rat
    \<Rightarrow> CrawlerScheduler \<times> (py_error + pyval)" where
  "crawl_source s source_id processed now1 now2 u =
     (case source_instances s source_id of
        None \<Rightarrow> (s, Inl ValueError)
      | Some config \<Rightarrow>
          (case crawl_try s source_id config processed now1 now2 u of
             (s1, Inr articles) \<Rightarrow> (s1, Inr articles)
           | (s1, Inl e) \<Rightarrow> crawl_except s1 source_id config now2))"



text \<open>
  Two scheduler states with the default options (\<open>default_interval = 3600\<close>,
  \<open>min_interval = 300\<close>, \<open>jitter = 0.1\<close>) and one registered RSS source each, due at time
  1000, used to evaluate \<open>crawl_source\<close>: the one with \<open>update_interval = 30\<close>, the
  other with \<open>update_interval = 7200\<close>.
\<close>

definition cnn_config :: "int \<Rightarrow> SourceConfig" where
  "cnn_config interval =
     \<lparr>name = ''CNN'', url = ''http://rss.cnn.com/rss/edition.rss'', type' = ''rss'',
      category = Some ''news'', update_interval = interval, active = True, id' = Some 1,
      rss_settings = [], html_settings = [], api_settings = []\<rparr>"

definition due_scheduler :: CrawlerScheduler where
  "due_scheduler =
     \<lparr>default_interval = 3600, min_interval = 300, jitter = 1 / 10,
      source_instances = [''1'' \<mapsto> cnn_config 30],
      last_crawl_time = [''1'' \<mapsto> 0],
      next_crawl_time = [''1'' \<mapsto> 1000]\<rparr>"


section \<open>API source: pagination (crawler/sources/api\_source.py)\<close>

text \<open>
  Strings are lists of \<open>char\<close>, read as code points below 256. \<open>str.isdigit\<close> holds
  there for the decimal digits and for the superscripts two, three and one (code points
  178, 179, 185); \<open>int(s)\<close> accepts the decimal digits only and raises \<open>ValueError\<close>
  otherwise.
\<close>

definition is_decimal :: "char \<Rightarrow> bool" where
  "is_decimal c = (48 \<le> (of_char c :: int) \<and> (of_char c :: int) \<le> 57)"

definition is_digit_char :: "char \<Rightarrow> bool" where
  "is_digit_char c = (is_decimal c \<or> (of_char c :: int) = 178 \<or> (of_char c :: int) = 179
      \<or> (of_char c :: int) = 185)"

definition isdigit :: "string \<Rightarrow> bool" where
  "isdigit s = (s \<noteq> [] \<and> list_all is_digit_char s)"

definition int_of_digits :: "string \<Rightarrow> py_error + nat" where
  "int_of_digits s =
     (if list_all is_decimal s then Inr (foldl (\<lambda>a c. 10 * a + (of_char c - 48)) 0 s)
      else Inl ValueError)"

text \<open>\<open>s.split(sep)\<close> for a separator of one character.\<close>

fun split_on :: "char \<Rightarrow> string \<Rightarrow> string list" where
  "split_on sep [] = [[]]"
| "split_on sep (c # cs) =
     (if c = sep then [] # split_on sep cs
      else (case split_on sep cs of
              w # ws \<Rightarrow> (c # w) # ws
            | [] \<Rightarrow> [[c]]))"

text \<open>
  One segment of a dotted path: \<open>if key.isdigit(): key = int(key)\<close>, so a segment is
  an index or a name.
\<close>

datatype path_key = Index nat | Name string

definition path_key_of :: "string \<Rightarrow> py_error + path_key" where
  "path_key_of key =
     (if isdigit key then (case int_of_digits key of Inl e \<Rightarrow> Inl e | Inr n \<Rightarrow> Inr (Index n))
      else Inr (Name key))"

text \<open>
  One step down the decoded response: a name selects the entry of a dictionary, an index
  below the length selects the element of a list. An index is never a key of a
  dictionary, since the keys of decoded JSON objects are strings. \<open>None\<close> is the
  \<open>else\<close> branch of the loop body.
\<close>

fun descend :: "pyval \<Rightarrow> path_key \<Rightarrow> pyval option" where
  "descend (PDict kvs) (Name k) = map_of kvs k"
| "descend (PList xs) (Index n) = (if n < length xs then Some (xs ! n) else None)"
| "descend v key = None"

text \<open>
  The loop \<open>for key in path.split('.')\<close>: \<open>Inr (Some v)\<close> when it runs to its end with
  the value \<open>v\<close>, \<open>Inr None\<close> when it reaches the \<open>else\<close> branch, \<open>Inl e\<close> when it
  raises.
\<close>

fun follow :: "pyval \<Rightarrow> string list \<Rightarrow> py_error + pyval option" where
  "follow v [] = Inr (Some v)"
| "follow v (key # keys) =
     (case path_key_of key of
        Inl e \<Rightarrow> Inl e
      | Inr k \<Rightarrow> (case descend v k of None \<Rightarrow> Inr None | Some v' \<Rightarrow> follow v' keys))"

text \<open>
  \<open>(total + self.page_size - 1) // self.page_size\<close> for the value found at
  \<open>total_path\<close>: integer floor division for an integer or Boolean, float floor division
  for a float, \<open>ZeroDivisionError\<close> for a page size of zero and \<open>TypeError\<close> for a
  value that is not a number.
\<close>

fun total_pages :: "pyval \<Rightarrow> int \<Rightarrow> py_error + rat" where
  "total_pages (PInt tot) page_size =
     (if page_size = 0 then Inl ZeroDivisionError
      else Inr (of_int ((tot + page_size - 1) div page_size)))"
| "total_pages (PBool b) page_size =
     (if page_size = 0 then Inl ZeroDivisionError
      else Inr (of_int (((if b then 1 else 0) + page_size - 1) div page_size)))"
| "total_pages (PFloat tot) page_size =
     (if page_size = 0 then Inl ZeroDivisionError
      else Inr (of_int \<lfloor>(tot + of_int page_size - 1) / of_int page_size\<rfloor>))"
| "total_pages v page_size = Inl TypeError"

text \<open>The pagination settings of an \<open>APISource\<close>.\<close>

record APISource =
  page_param :: "string option"
  page_size_param :: "string option"
  page_size :: int
  max_pages :: int
  total_path :: "string option"
  next_page_path :: "string option"

definition is_set :: "string option \<Rightarrow> bool" where
  "is_set p = (case p of None \<Rightarrow> False | Some s \<Rightarrow> s \<noteq> [])"

fun is_dict :: "pyval \<Rightarrow> bool" where
  "is_dict (PDict kvs) = True"
| "is_dict v = False"

definition check_has_more_pages :: "APISource \<Rightarrow> pyval \<Rightarrow> int \<Rightarrow> nat \<Rightarrow> bool" where
  "check_has_more_pages src response_data current_page items_count =
     (if \<not> is_set (page_param src) then False
      else if items_count = 0 then False
      else if int items_count < page_size src then False
      else if is_set (total_path src) \<and> is_dict response_data then
        (case follow response_data (split_on CHR ''.'' (the (total_path src))) of
           Inl e \<Rightarrow> True
         | Inr None \<Rightarrow> True
         | Inr (Some tot) \<Rightarrow>
             (case total_pages tot (page_size src) of
                Inl e \<Rightarrow> True
              | Inr pages \<Rightarrow> of_int current_page < pages))
      else if is_set (next_page_path src) \<and> is_dict response_data then
        (case follow response_data (split_on CHR ''.'' (the (next_page_path src))) of
           Inl e \<Rightarrow> False
         | Inr None \<Rightarrow> False
         | Inr (Some next_page) \<Rightarrow> truthy next_page)
      else page_size src \<le> int items_count)"

text \<open>The number a value stands for in a comparison such as \<open>total == page_size\<close>.\<close>

fun number_of :: "pyval \<Rightarrow> rat option" where
  "number_of (PInt i) = Some (of_int i)"
| "number_of (PBool b) = Some (if b then 1 else 0)"
| "number_of (PFloat x) = Some x"
| "number_of v = None"


section \<open>Strings: character classes and the methods of \<open>str\<close> and \<open>re\<close> in use\<close>

text \<open>
  The classes of the code points below 256 as Python's \<open>str\<close> and \<open>re\<close> see them:
  white space (\<open>str.isspace\<close>, \<open>\s\<close>, what \<open>strip\<close> and \<open>split\<close> cut at) is 9 to 13,
  28 to 32, 133 and 160; a word character (\<open>\w\<close>) is alphanumeric or the underscore;
  \<open>\d\<close> is a decimal digit; \<open>lower\<close> shifts the upper case letters by 32.
\<close>

definition is_space :: "char \<Rightarrow> bool" where
  "is_space c = (let n = (of_char c :: int)
                 in (9 \<le> n \<and> n \<le> 13) \<or> (28 \<le> n \<and> n \<le> 32) \<or> n = 133 \<or> n = 160)"

definition is_word :: "char \<Rightarrow> bool" where
  "is_word c = (let n = (of_char c :: int)
                in (48 \<le> n \<and> n \<le> 57) \<or> (65 \<le> n \<and> n \<le> 90) \<or> n = 95 \<or> (97 \<le> n \<and> n \<le> 122)
                   \<or> n = 170 \<or> n = 178 \<or> n = 179 \<or> n = 181 \<or> n = 185 \<or> n = 186
                   \<or> (188 \<le> n \<and> n \<le> 190) \<or> (192 \<le> n \<and> n \<le> 214)
                   \<or> (216 \<le> n \<and> n \<le> 246) \<or> (248 \<le> n \<and> n \<le> 255))"

definition lower_char :: "char \<Rightarrow> char" where
  "lower_char c = (let n = (of_char c :: int)
                   in if (65 \<le> n \<and> n \<le> 90) \<or> (192 \<le> n \<and> n \<le> 214) \<or> (216 \<le> n \<and> n \<le> 222)
                      then char_of (n + 32) else c)"

definition lower :: "string \<Rightarrow> string" where
  "lower s = map lower_char s"

definition strip :: "string \<Rightarrow> string" where
  "strip s = rev (dropWhile is_space (rev (dropWhile is_space s)))"

text \<open>
  A text as its maximal runs of white space and of other characters, in order. The
  regular expressions below act on whole runs: \<open>\s+\<close> matches a run of white space and
  \<open>\S+\<close> extends to the end of a run of other characters.
\<close>

fun runs :: "string \<Rightarrow> string list" where
  "runs [] = []"
| "runs (c # cs) =
     (case runs cs of
        [] \<Rightarrow> [[c]]
      | g # gs \<Rightarrow> if is_space c = is_space (hd g) then (c # g) # gs else [c] # g # gs)"

definition is_blank :: "string \<Rightarrow> bool" where
  "is_blank g = (g \<noteq> [] \<and> is_space (hd g))"

text \<open>\<open>text.split()\<close>: the runs that are not white space.\<close>

definition split_words :: "string \<Rightarrow> string list" where
  "split_words s = filter (\<lambda>g. \<not> is_blank g) (runs s)"

text \<open>\<open>sep.join(parts)\<close>.\<close>

fun join :: "string \<Rightarrow> string list \<Rightarrow> string" where
  "join sep [] = []"
| "join sep [p] = p"
| "join sep (p # q # ps) = p @ sep @ join sep (q # ps)"

text \<open>
  \<open>re.sub(r'https?://\S+|www\.\S+', '', text)\<close>. A match starts where one of the three
  prefixes is followed by at least one more character of the run and extends to the
  end of the run, so each run is cut at the first such position.
\<close>

definition url_starts :: "string \<Rightarrow> bool" where
  "url_starts r =
     ((take 8 r = ''https://'' \<and> 8 < length r) \<or> (take 7 r = ''http://'' \<and> 7 < length r)
      \<or> (take 4 r = ''www.'' \<and> 4 < length r))"

fun cut_url :: "string \<Rightarrow> string" where
  "cut_url [] = []"
| "cut_url (c # cs) = (if url_starts (c # cs) then [] else c # cut_url cs)"

definition remove_urls :: "string \<Rightarrow> string" where
  "remove_urls text = concat (map (\<lambda>g. if is_blank g then g else cut_url g) (runs text))"

text \<open>
  \<open>re.sub(r'\S+@\S+\.\S+', '', text)\<close>. A run has a match exactly when an \<open>@\<close> that
  is not its first character is followed, at least one character later, by a dot that
  is not its last character; the leftmost match then starts with the run and, the last
  \<open>\S+\<close> being greedy, ends with it, so the whole run is removed.
\<close>

definition has_email :: "string \<Rightarrow> bool" where
  "has_email g =
     (let from_at = dropWhile (\<lambda>c. c \<noteq> CHR ''@'') (tl g)
      in from_at \<noteq> [] \<and> CHR ''.'' \<in> set (butlast (drop 2 from_at)))"

definition remove_emails :: "string \<Rightarrow> string" where
  "remove_emails text =
     concat (map (\<lambda>g. if \<not> is_blank g \<and> has_email g then [] else g) (runs text))"

text \<open>
  \<open>re.sub(r'[^\w\s]', ' ', text)\<close>, \<open>re.sub(r'\d+', '', text)\<close> and
  \<open>re.sub(r'\s+', ' ', text).strip()\<close>.
\<close>

definition blank_specials :: "string \<Rightarrow> string" where
  "blank_specials text = map (\<lambda>c. if is_word c \<or> is_space c then c else CHR '' '') text"

definition remove_digits :: "string \<Rightarrow> string" where
  "remove_digits text = filter (\<lambda>c. \<not> is_decimal c) text"

definition normalize_spaces :: "string \<Rightarrow> string" where
  "normalize_spaces text = strip (concat (map (\<lambda>g. if is_blank g then '' '' else g) (runs text)))"


section \<open>Duplicate detector (processor/deduplication/duplicate\_detector.py)\<close>

text \<open>The options of the detector that \<open>_find_duplicate\<close> and the strategies read.\<close>

record DuplicateDetector =
  similarity_threshold :: rat
  title_weight :: rat
  content_weight :: rat
  use_exact_match :: bool
  use_fuzzy_match :: bool
  use_minhash :: bool

text \<open>
  A method of \<open>str\<close> called on a field of an article: on a value that is not a string
  the attribute lookup raises \<open>AttributeError\<close>.
\<close>

fun str_method :: "(string \<Rightarrow> 'a) \<Rightarrow> pyval \<Rightarrow> py_error + 'a" where
  "str_method f (PStr s) = Inr (f s)"
| "str_method f v = Inl AttributeError"

text \<open>\<open>_clean_text\<close>, on a string.\<close>

definition clean_text :: "string \<Rightarrow> string" where
  "clean_text text =
     normalize_spaces (remove_digits (blank_specials (remove_emails (remove_urls (lower text)))))"

text \<open>
  \<open>_calculate_text_similarity\<close>: the Jaccard similarity of the two sets of words of the
  cleaned texts. The sets are lists without repetition here.
\<close>

definition text_similarity :: "string \<Rightarrow> string \<Rightarrow> rat" where
  "text_similarity text1 text2 =
     (let t1 = clean_text text1; t2 = clean_text text2
      in if t1 = [] \<or> t2 = [] then 0
         else (let words1 = remdups (split_words t1); words2 = remdups (split_words t2)
               in if words1 = [] \<or> words2 = [] then 0
                  else (let intersection = length (filter (\<lambda>w. w \<in> set words2) words1);
                            union = length (remdups (words1 @ words2))
                        in if union = 0 then 0 else of_nat intersection / of_nat union)))"

definition calculate_text_similarity :: "pyval \<Rightarrow> pyval \<Rightarrow> py_error + rat" where
  "calculate_text_similarity text1 text2 =
     (case str_method id text1 of
        Inl e \<Rightarrow> Inl e
      | Inr s1 \<Rightarrow> (case str_method id text2 of
                     Inl e \<Rightarrow> Inl e
                   | Inr s2 \<Rightarrow> Inr (text_similarity s1 s2)))"

text \<open>\<open>_calculate_similarity\<close>.\<close>

definition calculate_similarity ::
  "DuplicateDetector \<Rightarrow> pyval \<Rightarrow> pyval \<Rightarrow> pyval \<Rightarrow> pyval \<Rightarrow> py_error + rat" where
  "calculate_similarity d title1 content1 title2 content2 =
     (case (if truthy title1 \<and> truthy title2 then calculate_text_similarity title1 title2
            else Inr 0) of
        Inl e \<Rightarrow> Inl e
      | Inr title_similarity \<Rightarrow>
          (case (if truthy content1 \<and> truthy content2
                 then calculate_text_similarity content1 content2 else Inr 0) of
             Inl e \<Rightarrow> Inl e
           | Inr content_similarity \<Rightarrow>
               Inr (if truthy title1 \<and> truthy title2 \<and> truthy content1 \<and> truthy content2
                    then title_similarity * title_weight d + content_similarity * content_weight d
                    else if truthy title1 \<and> truthy title2 then title_similarity
                    else if truthy content1 \<and> truthy content2 then content_similarity
                    else 0)))"

text \<open>
  The loop of \<open>_check_fuzzy_match\<close> over the candidates, with the best similarity and
  the best candidate id found so far, and the method itself.
\<close>

fun fuzzy_loop ::
  "DuplicateDetector \<Rightarrow> pyval \<Rightarrow> pyval \<Rightarrow> pydict list \<Rightarrow> rat \<Rightarrow> pyval \<Rightarrow> py_error + rat \<times> pyval" where
  "fuzzy_loop d title content [] best_similarity best_candidate_id =
     Inr (best_similarity, best_candidate_id)"
| "fuzzy_loop d title content (candidate # candidates) best_similarity best_candidate_id =
     (let candidate_title = dict_get_default candidate ''title'' (PStr []);
          candidate_content = dict_get_default candidate ''content'' (PStr [])
      in if \<not> truthy candidate_title \<and> \<not> truthy candidate_content
         then fuzzy_loop d title content candidates best_similarity best_candidate_id
         else (case calculate_similarity d title content candidate_title candidate_content of
                 Inl e \<Rightarrow> Inl e
               | Inr similarity \<Rightarrow>
                   if similarity > similarity_threshold d \<and> similarity > best_similarity
                   then (case dict_item candidate ''id'' of
                           Inl e \<Rightarrow> Inl e
                         | Inr i \<Rightarrow> fuzzy_loop d title content candidates similarity i)
                   else fuzzy_loop d title content candidates best_similarity best_candidate_id))"

definition check_fuzzy_match ::
  "DuplicateDetector \<Rightarrow> pydict \<Rightarrow> pydict list \<Rightarrow> py_error + bool \<times> pyval" where
  "check_fuzzy_match d article candidates =
     (let title = dict_get_default article ''title'' (PStr []);
          content = dict_get_default article ''content'' (PStr [])
      in if \<not> truthy title \<and> \<not> truthy content then Inr (False, PNone)
         else (case fuzzy_loop d title content candidates 0 PNone of
                 Inl e \<Rightarrow> Inl e
               | Inr (best_similarity, best_candidate_id) \<Rightarrow>
                   if truthy best_candidate_id then Inr (True, best_candidate_id)
                   else Inr (False, PNone)))"

text \<open>
  \<open>_check_exact_match\<close>. \<open>normalized\<close> is \<open>x.strip().lower()\<close>; \<open>field_matches\<close> is one
  of the two tests of the loop body, and \<open>exact_loop\<close> the loop.
\<close>

definition normalized :: "pyval \<Rightarrow> py_error + string" where
  "normalized v = str_method (\<lambda>s. lower (strip s)) v"

definition field_matches :: "string \<Rightarrow> pydict \<Rightarrow> string \<Rightarrow> py_error + bool" where
  "field_matches wanted candidate field =
     (if wanted \<noteq> [] \<and> truthy (dict_get candidate field)
      then (case normalized (dict_get candidate field) of
              Inl e \<Rightarrow> Inl e
            | Inr found \<Rightarrow> Inr (wanted = found))
      else Inr False)"

definition duplicate_of :: "pydict \<Rightarrow> py_error + bool \<times> pyval" where
  "duplicate_of candidate =
     (case dict_item candidate ''id'' of Inl e \<Rightarrow> Inl e | Inr i \<Rightarrow> Inr (True, i))"

fun exact_loop :: "string \<Rightarrow> string \<Rightarrow> pydict list \<Rightarrow> py_error + bool \<times> pyval" where
  "exact_loop title url' [] = Inr (False, PNone)"
| "exact_loop title url' (candidate # candidates) =
     (case field_matches title candidate ''title'' of
        Inl e \<Rightarrow> Inl e
      | Inr True \<Rightarrow> duplicate_of candidate
      | Inr False \<Rightarrow>
          (case field_matches url' candidate ''url'' of
             Inl e \<Rightarrow> Inl e
           | Inr True \<Rightarrow> duplicate_of candidate
           | Inr False \<Rightarrow> exact_loop title url' candidates))"

definition check_exact_match :: "pydict \<Rightarrow> pydict list \<Rightarrow> py_error + bool \<times> pyval" where
  "check_exact_match article candidates =
     (case normalized (dict_get_default article ''title'' (PStr [])) of
        Inl e \<Rightarrow> Inl e
      | Inr title \<Rightarrow>
          (case normalized (dict_get_default article ''url'' (PStr [])) of
             Inl e \<Rightarrow> Inl e
           | Inr url' \<Rightarrow>
               if title = [] \<and> url' = [] then Inr (False, PNone)
               else exact_loop title url' candidates))"

text \<open>
  \<open>_find_duplicate\<close>: the strategies in order. The MinHash strategy rests on the
  \<open>datasketch\<close> library; \<open>minhash\<close> is the pair that \<open>_check_minhash\<close> returns (the
  method catches every exception itself), and \<open>(False, None)\<close> when the index is missing
  and the strategy is not run.
\<close>

definition find_duplicate ::
  "DuplicateDetector \<Rightarrow> bool \<times> pyval \<Rightarrow> pydict \<Rightarrow> pydict list \<Rightarrow> py_error + bool \<times> pyval" where
  "find_duplicate d minhash article candidates =
     (case (if use_exact_match d then check_exact_match article candidates
            else Inr (False, PNone)) of
        Inl e \<Rightarrow> Inl e
      | Inr (True, exact_match_id) \<Rightarrow> Inr (True, exact_match_id)
      | Inr (False, x) \<Rightarrow>
          if use_minhash d \<and> fst minhash then Inr (True, snd minhash)
          else (case (if use_fuzzy_match d then check_fuzzy_match d article candidates
                      else Inr (False, PNone)) of
                  Inl e \<Rightarrow> Inl e
                | Inr (True, fuzzy_match_id) \<Rightarrow> Inr (True, fuzzy_match_id)
                | Inr (False, y) \<Rightarrow> Inr (False, PNone)))"

text \<open>
  Two fields share a word when both are strings and some word of the one cleaned text
  is a word of the other. A stored candidate carries an id, and its title and URL are
  strings unless they are empty or missing.
\<close>

fun shares_word :: "pyval \<Rightarrow> pyval \<Rightarrow> bool" where
  "shares_word (PStr s1) (PStr s2) =
     list_ex (\<lambda>w. w \<in> set (split_words (clean_text s2))) (split_words (clean_text s1))"
| "shares_word x y = False"

fun str_or_falsy :: "pyval \<Rightarrow> bool" where
  "str_or_falsy (PStr s) = True"
| "str_or_falsy v = (\<not> truthy v)"

definition stored_candidate :: "pydict \<Rightarrow> bool" where
  "stored_candidate c =
     (dict_has c ''id'' \<and> str_or_falsy (dict_get c ''title'') \<and> str_or_falsy (dict_get c ''url''))"

text \<open>
  A candidate matches a wanted value in a field when the wanted value is not empty and
  the field is a non-empty string equal to it after stripping and lowercasing; it
  matches an article when it matches the normalized title in \<open>title\<close> or the normalized
  URL in \<open>url\<close>.
\<close>

definition same_field :: "string \<Rightarrow> pydict \<Rightarrow> string \<Rightarrow> bool" where
  "same_field wanted candidate field =
     (case dict_get candidate field of
        PStr found \<Rightarrow> wanted \<noteq> [] \<and> found \<noteq> [] \<and> lower (strip found) = wanted
      | v \<Rightarrow> False)"

definition candidate_matches :: "string \<Rightarrow> string \<Rightarrow> pydict \<Rightarrow> bool" where
  "candidate_matches title url' candidate =
     (same_field title candidate ''title'' \<or> same_field url' candidate ''url'')"

text \<open>
  Articles and detectors used to evaluate the strategies: a detector with only the exact
  strategy switched on, the default detector, a pair of articles whose titles differ in
  case and surrounding blanks only, a candidate unrelated to them, a pair whose titles
  consist of blanks, and a pair without a common word.
\<close>

definition exact_only :: DuplicateDetector where
  "exact_only = \<lparr>similarity_threshold = 8 / 10, title_weight = 6 / 10,
     content_weight = 4 / 10, use_exact_match = True, use_fuzzy_match = False,
     use_minhash = False\<rparr>"

definition default_detector :: DuplicateDetector where
  "default_detector = \<lparr>similarity_threshold = 8 / 10, title_weight = 6 / 10,
     content_weight = 4 / 10, use_exact_match = True, use_fuzzy_match = True,
     use_minhash = False\<rparr>"

definition storm_article :: pydict where
  "storm_article = [(''title'', PStr '' Storm Hits Coast ''), (''url'', PStr ''http://a.example/1'')]"

definition storm_candidate :: pydict where
  "storm_candidate = [(''id'', PInt 7), (''title'', PStr ''storm hits coast''),
     (''url'', PStr ''http://b.example/2'')]"

definition far_candidate :: pydict where
  "far_candidate = [(''id'', PInt 3), (''title'', PStr ''Markets rally''),
     (''url'', PStr ''http://c.example/3'')]"

definition blank_article :: pydict where
  "blank_article = [(''title'', PStr ''  ''), (''url'', PStr ''http://a.example/1'')]"

definition blank_candidate :: pydict where
  "blank_candidate = [(''id'', PInt 7), (''title'', PStr '' ''),
     (''url'', PStr ''http://b.example/2'')]"

definition rain_article :: pydict where
  "rain_article = [(''title'', PStr ''Rain in Spain''), (''content'', PStr ''Wet weather today.'')]"

definition market_candidate :: pydict where
  "market_candidate = [(''id'', PInt 8), (''title'', PStr ''Stock markets''),
     (''content'', PStr ''Prices rose sharply.'')]"


section \<open>Analytics repository (storage/database/repository.py, models.py)\<close>

text \<open>
  The three tables that \<open>get_category_distribution\<close> queries: the ids of the rows of
  \<open>articles\<close>, the rows (id, name) of \<open>categories\<close>, and the rows (article id, category
  id) of the association table \<open>article_category\<close> behind the many-to-many relationship
  \<open>Category.articles\<close>.
\<close>

record database =
  articles_table :: "nat list"
  categories_table :: "(nat \<times> string) list"
  article_category_table :: "(nat \<times> nat) list"

text \<open>
  The join of \<open>categories\<close> with \<open>articles\<close> through the association table: one row
  (category name, article id) for each association row whose article and category both
  exist.
\<close>

definition joined_rows :: "database \<Rightarrow> (string \<times> nat) list" where
  "joined_rows db =
     concat (map (\<lambda>(article_id, category_id).
                    if article_id \<in> set (articles_table db)
                    then map (\<lambda>(cid, cname). (cname, article_id))
                           (filter (\<lambda>(cid, cname). cid = category_id) (categories_table db))
                    else [])
               (article_category_table db))"

text \<open>\<open>GROUP BY Category.name\<close> with \<open>count(Article.id)\<close>: one row per name that occurs.\<close>

definition group_by_name :: "(string \<times> nat) list \<Rightarrow> (string \<times> nat) list" where
  "group_by_name rows =
     map (\<lambda>n. (n, length (filter (\<lambda>r. fst r = n) rows))) (remdups (map fst rows))"

text \<open>
  Floating point. A Python float is a double: a number with 53 significant bits and an
  exponent of the last bit not below -1074. \<open>to_double\<close> is the double nearest to a
  rational, a tie going to the even significand, which is how every operation below
  rounds its exact result. The overflow beyond \<open>2^1024\<close> is left out: a quotient of two
  row counts and its hundredfold stay far below.
\<close>

definition round_half_even :: "rat \<Rightarrow> int" where
  "round_half_even x =
     (let f = \<lfloor>x\<rfloor>
      in if x - of_int f < 1 / 2 then f
         else if 1 / 2 < x - of_int f then f + 1
         else if even f then f else f + 1)"

text \<open>The integer \<open>d\<close> with \<open>2^d \<le> x < 2^(d+1)\<close>, for a positive rational.\<close>

definition floor_log2 :: "rat \<Rightarrow> int" where
  "floor_log2 x =
     (case quotient_of x of
        (p, q) \<Rightarrow> (let d = bitlen p - bitlen q in if 2 powi d \<le> x then d else d - 1))"

definition to_double :: "rat \<Rightarrow> rat" where
  "to_double x =
     (if x = 0 then 0
      else (let e = max (floor_log2 \<bar>x\<bar> - 52) (- 1074)
            in sgn x * of_int (round_half_even (\<bar>x\<bar> / 2 powi e)) * 2 powi e))"

text \<open>
  \<open>a / b\<close> for two integers (true division, correctly rounded), \<open>x * y\<close> for two
  floats, and \<open>round(x, 2)\<close> for a float: the double nearest to the multiple of 1/100
  that is nearest to \<open>x\<close>, a tie going to the even multiple.
\<close>

definition true_div :: "nat \<Rightarrow> nat \<Rightarrow> rat" where
  "true_div a b = to_double (of_nat a / of_nat b)"

definition float_mul :: "rat \<Rightarrow> rat \<Rightarrow> rat" where
  "float_mul x y = to_double (x * y)"

definition py_round2 :: "rat \<Rightarrow> rat" where
  "py_round2 x = to_double (of_int (round_half_even (x * 100)) / 100)"

text \<open>\<open>round((r.count / total_count) * 100, 2)\<close>.\<close>

definition percentage_of :: "nat \<Rightarrow> nat \<Rightarrow> rat" where
  "percentage_of cnt total_count = py_round2 (float_mul (true_div cnt total_count) 100)"

record distribution_entry =
  entry_category :: string
  entry_count :: nat
  entry_percentage :: rat

text \<open>
  \<open>ORDER BY count DESC\<close> is done by the database, which is free in the order of
  groups with equal counts. \<open>order_by\<close> stands for it: a function that returns the rows
  it is given, rearranged so that the counts descend. \<open>stable_order\<close> is one such
  function, which keeps groups with equal counts in the order given.
\<close>

definition orders_by_count :: "((string \<times> nat) list \<Rightarrow> (string \<times> nat) list) \<Rightarrow> bool" where
  "orders_by_count order_by =
     (\<forall>rows. mset (order_by rows) = mset rows \<and>
             sorted (map (\<lambda>(cname, cnt). - int cnt) (order_by rows)))"

definition stable_order :: "(string \<times> nat) list \<Rightarrow> (string \<times> nat) list" where
  "stable_order rows = sort_key (\<lambda>(cname, cnt). - int cnt) rows"

text \<open>
  \<open>get_category_distribution\<close>: the total is the number of all articles;
  \<open>result_entry\<close> is the dictionary built for one row \<open>r\<close> of the result, with
  \<open>r.count\<close> read as the labelled column.
\<close>

fun result_entry :: "nat \<Rightarrow> string \<times> nat \<Rightarrow> distribution_entry" where
  "result_entry total_count (cname, cnt) =
     \<lparr>entry_category = cname, entry_count = cnt,
      entry_percentage = percentage_of cnt total_count\<rparr>"

definition get_category_distribution ::
  "((string \<times> nat) list \<Rightarrow> (string \<times> nat) list) \<Rightarrow> database \<Rightarrow> distribution_entry list" where
  "get_category_distribution order_by db =
     (let total_count = length (articles_table db)
      in if total_count = 0 then []
         else map (result_entry total_count) (order_by (group_by_name (joined_rows db))))"

text \<open>A database with one article that belongs to two categories.\<close>

definition two_category_db :: database where
  "two_category_db =
     \<lparr>articles_table = [1], categories_table = [(1, ''politics''), (2, ''business'')],
      article_category_table = [(1, 1), (1, 2)]\<rparr>"

text \<open>A database with three articles that belong to one category each.\<close>

definition one_category_db :: database where
  "one_category_db =
     \<lparr>articles_table = [1, 2, 3], categories_table = [(1, ''politics''), (2, ''business'')],
      article_category_table = [(1, 1), (2, 1), (3, 2)]\<rparr>"


section \<open>Classifier (processor/pipeline/classifier.py)\<close>

text \<open>
  The options of the classifier that \<open>process\<close> and \<open>_classify_article\<close> read;
  \<open>override_existing\<close> is the entry of that name in the configuration dictionary.
\<close>

record Classifier =
  enabled :: bool
  min_content_length :: int
  default_category :: string
  min_confidence :: rat
  override_existing :: bool

text \<open>\<open>len(x)\<close> raises \<open>TypeError\<close> for a value without a length.\<close>

fun py_len :: "pyval \<Rightarrow> py_error + nat" where
  "py_len (PStr s) = Inr (length s)"
| "py_len (PList xs) = Inr (length xs)"
| "py_len (PDict kvs) = Inr (length kvs)"
| "py_len v = Inl TypeError"

text \<open>
  \<open>_classify_article\<close>. The three strategies (keyword lists, TF-IDF model, neural
  model) rest on files and libraries outside the repository; \<open>strategy_results\<close> is the
  list of the pairs (categories, confidence) that the strategies which ran returned, in
  the order keywords, TF-IDF, neural. A pair without categories is not kept, the kept
  ones are sorted by descending confidence (stably), and the first decides.
\<close>

definition classify_article :: "Classifier \<Rightarrow> (string list \<times> rat) list \<Rightarrow> string list \<times> rat" where
  "classify_article c strategy_results =
     (case sort_key (\<lambda>(cats, confidence). - confidence)
             (filter (\<lambda>(cats, confidence). cats \<noteq> []) strategy_results) of
        [] \<Rightarrow> ([default_category c], 0)
      | (top_categories, top_confidence) # rest \<Rightarrow>
          if top_confidence < min_confidence c then ([default_category c], top_confidence)
          else (top_categories, top_confidence))"

text \<open>
  The test \<open>article.get("content") and len(article["content"]) < self.min_content_length
  and not article.get("title")\<close>.
\<close>

definition content_too_short :: "Classifier \<Rightarrow> pydict \<Rightarrow> py_error + bool" where
  "content_too_short c article =
     (if truthy (dict_get article ''content'')
      then (case py_len (dict_get article ''content'') of
              Inl e \<Rightarrow> Inl e
            | Inr n \<Rightarrow> Inr (int n < min_content_length c \<and> \<not> truthy (dict_get article ''title'')))
      else Inr False)"

text \<open>
  The two statements that record the confidence: \<open>article["metadata"]\<close> is created as
  an empty dictionary when the key is missing, and the item assignment raises
  \<open>TypeError\<close> when the entry is not a dictionary.
\<close>

definition record_confidence :: "pydict \<Rightarrow> rat \<Rightarrow> py_error + pydict" where
  "record_confidence article confidence =
     (let article1 = (if dict_has article ''metadata'' then article
                      else dict_set article ''metadata'' (PDict []))
      in case dict_get article1 ''metadata'' of
           PDict metadata \<Rightarrow>
             Inr (dict_set article1 ''metadata''
                    (PDict (dict_set metadata ''classification_confidence'' (PFloat confidence))))
         | v \<Rightarrow> Inl TypeError)"

definition default_categories :: "Classifier \<Rightarrow> pydict \<Rightarrow> pydict" where
  "default_categories c article = dict_set article ''categories'' (PList [PStr (default_category c)])"

text \<open>
  \<open>process\<close>. \<open>strategies\<close> is the outcome of the strategies as \<open>_classify_article\<close>
  runs them, an exception or their results. Every exception inside \<open>process\<close> is
  answered by the article, as changed so far, with the default category.
\<close>

definition process :: "Classifier \<Rightarrow> py_error + (string list \<times> rat) list \<Rightarrow> pydict \<Rightarrow> pydict" where
  "process c strategies article =
     (if \<not> enabled c then article
      else if truthy (dict_get article ''categories'') \<and> \<not> override_existing c then article
      else if \<not> truthy (dict_get article ''content'') \<and> \<not> truthy (dict_get article ''title'')
        then default_categories c article
      else (case content_too_short c article of
              Inl e \<Rightarrow> default_categories c article
            | Inr True \<Rightarrow> default_categories c article
            | Inr False \<Rightarrow>
                (case strategies of
                   Inl e \<Rightarrow> default_categories c article
                 | Inr strategy_results \<Rightarrow>
                     (case classify_article c strategy_results of
                        (categories, confidence) \<Rightarrow>
                          if categories \<noteq> [] then
                            (let article1 = dict_set article ''categories'' (PList (map PStr categories))
                             in case record_confidence article1 confidence of
                                  Inl e \<Rightarrow> default_categories c article1
                                | Inr article2 \<Rightarrow> article2)
                          else default_categories c article))))"

text \<open>The confidence recorded in an article, if any.\<close>

definition classification_confidence :: "pydict \<Rightarrow> pyval option" where
  "classification_confidence article =
     (case dict_get article ''metadata'' of
        PDict metadata \<Rightarrow> map_of metadata ''classification_confidence''
      | v \<Rightarrow> None)"

text \<open>
  The classifier with the default options, an article with neither title nor content,
  and an article with a title.
\<close>

definition default_classifier :: Classifier where
  "default_classifier = \<lparr>enabled = True, min_content_length = 100, default_category = ''general'',
     min_confidence = 1 / 2, override_existing = False\<rparr>"

definition empty_article :: pydict where
  "empty_article = [(''id'', PInt 1), (''title'', PStr []), (''content'', PNone)]"

definition titled_article :: pydict where
  "titled_article = [(''id'', PInt 2), (''title'', PStr ''Senate votes on the bill'')]"


section \<open>Text utilities: extractive summary (processor/utils/text\_utils.py)\<close>

text \<open>
  \<open>re.split(r'(?<=[.!?])\s+', text)\<close>: the text is cut at every run of white space
  that follows a full stop, an exclamation mark or a question mark; the run itself is
  dropped. \<open>sentence_pieces\<close> walks the runs of the text with the piece collected so
  far.
\<close>

fun sentence_pieces :: "string \<Rightarrow> string list \<Rightarrow> string list" where
  "sentence_pieces piece [] = [piece]"
| "sentence_pieces piece (g # gs) =
     (if is_blank g \<and> piece \<noteq> [] \<and> last piece \<in> set ''.!?''
      then piece # sentence_pieces [] gs
      else sentence_pieces (piece @ g) gs)"

definition split_sentences :: "string \<Rightarrow> string list" where
  "split_sentences text = sentence_pieces [] (runs text)"

definition extract_sentences :: "string \<Rightarrow> string list" where
  "extract_sentences text =
     (if text = [] then []
      else filter (\<lambda>s. s \<noteq> []) (map strip (split_sentences text)))"

text \<open>
  \<open>remove_special_chars(text)\<close> as \<open>extract_keywords\<close> calls it, without
  \<open>keep_punctuation\<close>: \<open>re.sub(r'[^\w\s]', '', text)\<close>.
\<close>

definition remove_special_chars :: "string \<Rightarrow> string" where
  "remove_special_chars text = filter (\<lambda>c. is_word c \<or> is_space c) text"

text \<open>
  The keys of the dictionary \<open>word_counts\<close> in insertion order, that is, the words in
  the order of their first occurrence, each with its number of occurrences.
\<close>

definition first_occurrences :: "'a list \<Rightarrow> 'a list" where
  "first_occurrences xs = rev (remdups (rev xs))"

definition word_counts :: "string list \<Rightarrow> (string \<times> nat) list" where
  "word_counts words =
     map (\<lambda>w. (w, length (filter (\<lambda>v. v = w) words))) (first_occurrences words)"

text \<open>
  A slice \<open>xs[:n]\<close>: the first \<open>n\<close> elements, or all but the last \<open>-n\<close> for a negative
  \<open>n\<close>.
\<close>

definition slice_to :: "int \<Rightarrow> 'a list \<Rightarrow> 'a list" where
  "slice_to n xs = (if 0 \<le> n then take (nat n) xs else take (length xs - nat (- n)) xs)"

text \<open>
  \<open>extract_keywords\<close>: the words of at least \<open>min_word_length\<close> characters of the
  lowercased text without special characters, by descending frequency (\<open>sorted\<close> is
  stable), cut to \<open>max_keywords\<close>.
\<close>

definition extract_keywords :: "string \<Rightarrow> int \<Rightarrow> int \<Rightarrow> string list" where
  "extract_keywords text max_keywords min_word_length =
     (if text = [] then []
      else (let words = filter (\<lambda>w. min_word_length \<le> int (length w))
                          (split_words (remove_special_chars (lower text)));
                sorted_words = sort_key (\<lambda>(w, cnt). - int cnt) (word_counts words)
            in map fst (slice_to max_keywords sorted_words)))"

text \<open>\<open>k in s\<close> for two strings: \<open>k\<close> occurs in \<open>s\<close> as a contiguous part.\<close>

fun occurs_in :: "string \<Rightarrow> string \<Rightarrow> bool" where
  "occurs_in k [] = (k = [])"
| "occurs_in k (c # cs) = (take (length k) (c # cs) = k \<or> occurs_in k cs)"

text \<open>
  The score of a sentence in \<open>generate_summary\<close>: the number of keywords that occur in
  it, both lowercased, divided by the number of its words when it has any.
\<close>

definition sentence_score :: "string list \<Rightarrow> string \<Rightarrow> rat" where
  "sentence_score keywords sentence =
     (let score = length (filter (\<lambda>keyword. occurs_in (lower keyword) (lower sentence)) keywords)
      in if 0 < length (split_words sentence)
         then of_nat score / of_nat (length (split_words sentence))
         else of_nat score)"

text \<open>
  The sentences that \<open>generate_summary\<close> keeps when there are more than
  \<open>max_sentences\<close>: the first \<open>max_sentences\<close> of the sentences sorted by descending
  score (stably), and of the sentences in their original order those that are among
  them.
\<close>

definition top_sentences :: "string list \<Rightarrow> string list \<Rightarrow> int \<Rightarrow> string list" where
  "top_sentences keywords sentences max_sentences =
     map fst (slice_to max_sentences
                (sort_key (\<lambda>(sentence, score). - score)
                   (map (\<lambda>sentence. (sentence, sentence_score keywords sentence)) sentences)))"

definition generate_summary :: "string \<Rightarrow> int \<Rightarrow> string" where
  "generate_summary text max_sentences =
     (if text = [] then []
      else (let sentences = extract_sentences text
            in if sentences = [] then []
               else if int (length sentences) \<le> max_sentences then join '' '' sentences
               else (let keywords = extract_keywords text 20 3;
                         top = top_sentences keywords sentences max_sentences;
                         original_order = filter (\<lambda>sentence. sentence \<in> set top) sentences
                     in join '' '' original_order)))"

text \<open>
  Three texts used to evaluate \<open>generate_summary\<close>: four sentences, two sentences
  separated by one blank, and the same two sentences separated by two blanks.
\<close>

definition weather_text :: string where
  "weather_text = ''Rain fell. Rain fell again on rain! Sun? Wind blew over the hills.''"

definition plain_text :: string where
  "plain_text = ''First point. Second point.''"

definition spaced_text :: string where
  "spaced_text = ''First point.  Second point.''"

section \<open>Properties of the rate limiter\<close>

lemma is_rate_limited_accept:
  assumes "stored = (case requests rl ip of None \<Rightarrow> [] | Some tss \<Rightarrow> tss)"
    and "\<forall>ts \<in> set stored. t - ts < of_int (time_window rl)"
    and "int (length stored) < rate_limit rl"
  shows "is_rate_limited rl ip t =
           (rl\<lparr>requests := (requests rl)(ip \<mapsto> stored @ [t])\<rparr>, Inr (False, None))"
proof -
  have "filter (\<lambda>ts. t - ts < of_int (time_window rl)) stored = stored"
    using assms(2) by (simp add: filter_id_conv)
  then show ?thesis
    using assms(1,3) by (simp add: is_rate_limited_def Let_def)
qed

lemma calls_accept_all:
  assumes "requests rl ip = Some stored"
    and "\<forall>t \<in> set ts. \<forall>s \<in> set (stored @ ts). t - s < of_int (time_window rl)"
    and "int (length stored) + int (length ts) \<le> rate_limit rl"
  shows "calls rl ip ts =
           (rl\<lparr>requests := (requests rl)(ip \<mapsto> stored @ ts)\<rparr>,
            replicate (length ts) (Inr (False, None)))"
  using assms
proof (induction ts arbitrary: rl stored)
  case Nil
  then have "(requests rl)(ip \<mapsto> stored) = requests rl"
    by (simp add: fun_upd_idem)
  then show ?case by simp
next
  case (Cons t ts)
  let ?rl1 = "rl\<lparr>requests := (requests rl)(ip \<mapsto> stored @ [t])\<rparr>"
  have step: "is_rate_limited rl ip t = (?rl1, Inr (False, None))"
    using Cons.prems by (intro is_rate_limited_accept) auto
  have "calls ?rl1 ip ts =
      (?rl1\<lparr>requests := (requests ?rl1)(ip \<mapsto> (stored @ [t]) @ ts)\<rparr>,
       replicate (length ts) (Inr (False, None)))"
    using Cons.prems by (intro Cons.IH) auto
  then have rest: "calls ?rl1 ip ts =
      (rl\<lparr>requests := (requests rl)(ip \<mapsto> stored @ t # ts)\<rparr>,
       replicate (length ts) (Inr (False, None)))"
    by simp
  have "calls rl ip (t # ts) = (case calls ?rl1 ip ts of (rl2, rs) \<Rightarrow> (rl2, Inr (False, None) # rs))"
    by (simp only: calls.simps step Let_def prod.case)
  also have "\<dots> = (rl\<lparr>requests := (requests rl)(ip \<mapsto> stored @ t # ts)\<rparr>,
       Inr (False, None) # replicate (length ts) (Inr (False, None)))"
    by (simp only: rest prod.case)
  finally show ?case by (simp add: fun_upd_def)
qed

lemma is_rate_limited_fresh:
  assumes "stored = (case requests rl ip of None \<Rightarrow> [] | Some tss \<Rightarrow> tss)"
    and "\<forall>s \<in> set stored. of_int (time_window rl) \<le> t - s"
    and "0 < rate_limit rl"
  shows "is_rate_limited rl ip t =
           (rl\<lparr>requests := (requests rl)(ip \<mapsto> [t])\<rparr>, Inr (False, None))"
proof -
  have "filter (\<lambda>ts. t - ts < of_int (time_window rl)) stored = []"
    using assms(2) by (auto simp: filter_empty_conv)
  then show ?thesis
    using assms(1,3) by (simp add: is_rate_limited_def Let_def)
qed

lemma is_rate_limited_reject:
  assumes "requests rl ip = Some stored"
    and "\<forall>s \<in> set stored. t - s < of_int (time_window rl)"
    and "rate_limit rl \<le> int (length stored)" and "stored \<noteq> []"
  shows "\<exists>r. is_rate_limited rl ip t = (rl, Inr (True, Some r)) \<and> 1 \<le> r"
proof -
  have f: "filter (\<lambda>ts. t - ts < of_int (time_window rl)) stored = stored"
    using assms(2) by (simp add: filter_id_conv)
  obtain x xs where s: "stored = x # xs"
    using assms(4) by (cases stored) auto
  have u: "rl\<lparr>requests := (requests rl)(ip \<mapsto> stored)\<rparr> = rl"
    using assms(1) by (simp add: fun_upd_idem)
  show ?thesis
    using assms(1,3) f u unfolding is_rate_limited_def Let_def
    by (simp add: s)
qed

text \<open>
  Claim C9. With \<open>rate_limit = 100\<close> and \<open>time_window = 60\<close>, a client whose earlier time
  stamps (if any) have all left the window issues 100 calls and then one more, at clock
  readings \<open>ts\<close> and \<open>t101\<close> that pairwise differ by less than 60 seconds. Each of the
  100 calls answers not limited, and the 101st answers limited with a retry value of at
  least 1, which the middleware puts into the rejection of the request.
\<close>

theorem rate_limiter_boundary:
  assumes "rate_limit rl = 100" and "time_window rl = 60" and "length ts = 100"
    and "\<forall>t \<in> set (ts @ [t101]).
           \<forall>s \<in> set (case requests rl ip of None \<Rightarrow> [] | Some tss \<Rightarrow> tss). 60 \<le> t - s"
    and "\<forall>t \<in> set (ts @ [t101]). \<forall>s \<in> set (ts @ [t101]). t - s < 60"
  shows "snd (calls rl ip ts) = replicate 100 (Inr (False, None)) \<and>
         (\<exists>r. snd (is_rate_limited (fst (calls rl ip ts)) ip t101) = Inr (True, Some r) \<and> 1 \<le> r \<and>
              (\<forall>path exclude_paths. path \<notin> set exclude_paths \<longrightarrow>
                 snd (middleware_call (fst (calls rl ip ts)) exclude_paths path ip t101) =
                   Inr (TooManyRequests (Some r))))"
proof -
  obtain t1 rest where ts: "ts = t1 # rest"
    using assms(3) by (cases ts) auto
  let ?rl1 = "rl\<lparr>requests := (requests rl)(ip \<mapsto> [t1])\<rparr>"
  have first: "is_rate_limited rl ip t1 = (?rl1, Inr (False, None))"
    using assms(1,2,4) by (intro is_rate_limited_fresh[OF refl]) (auto simp: ts)
  have "calls ?rl1 ip rest =
      (?rl1\<lparr>requests := (requests ?rl1)(ip \<mapsto> [t1] @ rest)\<rparr>,
       replicate (length rest) (Inr (False, None)))"
    using assms(1,2,3,5) by (intro calls_accept_all) (auto simp: ts)
  then have rest: "calls ?rl1 ip rest =
      (rl\<lparr>requests := (requests rl)(ip \<mapsto> ts)\<rparr>, replicate 99 (Inr (False, None)))"
    using assms(3) by (simp add: ts)
  have all: "calls rl ip ts =
      (rl\<lparr>requests := (requests rl)(ip \<mapsto> ts)\<rparr>, replicate 100 (Inr (False, None)))"
  proof -
    have "calls rl ip (t1 # rest) =
        (case calls ?rl1 ip rest of (rl2, rs) \<Rightarrow> (rl2, Inr (False, None) # rs))"
      by (simp only: calls.simps first Let_def prod.case)
    also have "\<dots> = (rl\<lparr>requests := (requests rl)(ip \<mapsto> ts)\<rparr>,
        Inr (False, None) # replicate 99 (Inr (False, None)))"
      by (simp only: rest prod.case)
    also have "Inr (False, None) # replicate 99 (Inr (False, None)) =
        (replicate 100 (Inr (False, None)) :: (py_error + bool \<times> int option) list)"
      by (simp add: numeral_eq_Suc)
    finally show ?thesis by (simp add: ts fun_upd_def)
  qed
  let ?rl100 = "rl\<lparr>requests := (requests rl)(ip \<mapsto> ts)\<rparr>"
  have "\<exists>r. is_rate_limited ?rl100 ip t101 = (?rl100, Inr (True, Some r)) \<and> 1 \<le> r"
    using assms(1,2,3,5) by (intro is_rate_limited_reject) (auto simp: ts)
  then show ?thesis
    unfolding all by (auto simp: middleware_call_def)
qed

theorem rate_limiter_boundary_witness:
  "snd (calls \<lparr>rate_limit = 100, time_window = 60, requests = Map.empty\<rparr> ''10.0.0.7''
          (map (\<lambda>i. of_nat i / 2) [0..<100])) = replicate 100 (Inr (False, None)) \<and>
   (\<exists>r. snd (is_rate_limited
               (fst (calls \<lparr>rate_limit = 100, time_window = 60, requests = Map.empty\<rparr> ''10.0.0.7''
                      (map (\<lambda>i. of_nat i / 2) [0..<100]))) ''10.0.0.7'' 50) = Inr (True, Some r) \<and>
        1 \<le> r \<and>
        (\<forall>path exclude_paths. path \<notin> set exclude_paths \<longrightarrow>
           snd (middleware_call
                  (fst (calls \<lparr>rate_limit = 100, time_window = 60, requests = Map.empty\<rparr>
                         ''10.0.0.7'' (map (\<lambda>i. of_nat i / 2) [0..<100])))
                  exclude_paths path ''10.0.0.7'' 50) = Inr (TooManyRequests (Some r))))"
proof (rule rate_limiter_boundary)
  show "rate_limit \<lparr>rate_limit = 100, time_window = 60, requests = Map.empty\<rparr> = 100"
    by simp
  show "time_window \<lparr>rate_limit = 100, time_window = 60, requests = Map.empty\<rparr> = 60"
    by simp
  show "length (map (\<lambda>i. (of_nat i :: rat) / 2) [0..<100]) = 100"
    by simp
  show "\<forall>t \<in> set (map (\<lambda>i. of_nat i / 2) [0..<100] @ [50::rat]).
          \<forall>s \<in> set (case requests \<lparr>rate_limit = 100, time_window = 60, requests = Map.empty\<rparr>
                              ''10.0.0.7'' of None \<Rightarrow> [] | Some tss \<Rightarrow> tss). 60 \<le> t - s"
    by simp
  show "\<forall>t \<in> set (map (\<lambda>i. of_nat i / 2) [0..<100] @ [50::rat]).
          \<forall>s \<in> set (map (\<lambda>i. of_nat i / 2) [0..<100] @ [50]). t - s < 60"
    by auto
qed

text \<open>
  Claim C10. Whatever the limiter holds, a call that answers limited leaves for that IP
  exactly the stored time stamps younger than the window, without the current one; a
  call that answers not limited leaves those followed by the current time stamp. The
  entries of other IPs and the two limits are untouched.
\<close>

theorem rate_limited_records_nothing:
  assumes "is_rate_limited rl ip t = (rl', Inr (limited, retry_after))"
  shows "requests rl' ip =
           Some (filter (\<lambda>ts. t - ts < of_int (time_window rl))
                   (case requests rl ip of None \<Rightarrow> [] | Some tss \<Rightarrow> tss)
                 @ (if limited then [] else [t])) \<and>
         (\<forall>other. other \<noteq> ip \<longrightarrow> requests rl' other = requests rl other) \<and>
         rate_limit rl' = rate_limit rl \<and> time_window rl' = time_window rl"
  using assms
  by (auto simp: is_rate_limited_def Let_def split: if_splits sum.splits)

theorem rate_limited_records_nothing_witness:
  "requests \<lparr>rate_limit = 2, time_window = 60, requests = [''10.0.0.7'' \<mapsto> [10, 20]]\<rparr>
     ''10.0.0.7'' = Some [10, 20] \<and>
   is_rate_limited \<lparr>rate_limit = 2, time_window = 60, requests = [''10.0.0.7'' \<mapsto> [0, 10, 20]]\<rparr>
     ''10.0.0.7'' 65 =
     (\<lparr>rate_limit = 2, time_window = 60, requests = [''10.0.0.7'' \<mapsto> [10, 20]]\<rparr>,
      Inr (True, Some 5))"
proof -
  have run: "is_rate_limited
      \<lparr>rate_limit = 2, time_window = 60, requests = [''10.0.0.7'' \<mapsto> [0, 10, 20]]\<rparr>
      ''10.0.0.7'' 65 =
     (\<lparr>rate_limit = 2, time_window = 60, requests = [''10.0.0.7'' \<mapsto> [10, 20]]\<rparr>,
      Inr (True, Some 5))"
    by (simp add: is_rate_limited_def py_int_def)
  show ?thesis
    using rate_limited_records_nothing [OF run] run by simp
qed

section \<open>Properties of the sentiment thresholds\<close>

text \<open>
  Claim C8. When the VADER library delivers a compound score, the rule answers positive
  at exactly 0.05, negative at exactly -0.05 and neutral for every score strictly between
  the two, and the confidence is the absolute value of the score in every case.
\<close>

theorem vader_thresholds:
  "fst (analyze_with_vader (Inr (5 / 100))) = positive \<and>
   fst (analyze_with_vader (Inr (- (5 / 100)))) = negative \<and>
   (\<forall>c. - (5 / 100) < c \<and> c < 5 / 100 \<longrightarrow> fst (analyze_with_vader (Inr c)) = neutral) \<and>
   (\<forall>c. snd (analyze_with_vader (Inr c)) = \<bar>c\<bar>)"
  by (simp add: analyze_with_vader_def)

theorem vader_thresholds_witness:
  "- (5 / 100) < (1 / 100 :: rat) \<and> (1 / 100 :: rat) < 5 / 100 \<and>
   analyze_with_vader (Inr (1 / 100)) = (neutral, 1 / 100)"
proof -
  have "- (5 / 100) < (1 / 100 :: rat) \<and> (1 / 100 :: rat) < 5 / 100 \<longrightarrow>
        fst (analyze_with_vader (Inr (1 / 100))) = neutral"
    using vader_thresholds by blast
  moreover have "snd (analyze_with_vader (Inr (1 / 100))) = \<bar>1 / 100\<bar>"
    using vader_thresholds by blast
  ultimately show ?thesis
    by (simp add: prod_eq_iff)
qed

section \<open>Behaviour of the scheduler on every source\<close>

lemma no_interval_attribute: "getattr_SourceConfig config ''interval'' = Inl AttributeError"
  by (simp add: getattr_SourceConfig_def)

text \<open>
  Claim C1. The claim asks that after a successful fetch the recorded next crawl time
  lies in the jittered band around \<open>now + max(I, min_interval)\<close>. For every scheduler,
  every registered source and every successful outcome of the fetch, \<open>crawl_source\<close>
  instead raises \<open>AttributeError\<close>: the read of \<open>source.config.interval\<close> fails in the
  \<open>try\<close> block and again in the handler. Only \<open>last_crawl_time\<close> has been written;
  \<open>next_crawl_time\<close> is what it was before the call. For the source due at time 1000 and
  crawled at that time it stays 1000, outside the band from 1270 to 1330.
\<close>

theorem crawl_source_success_raises:
  "crawl_source (s\<lparr>source_instances := (source_instances s)(source_id \<mapsto> config)\<rparr>)
     source_id (Inr articles) now1 now2 u =
   (s\<lparr>source_instances := (source_instances s)(source_id \<mapsto> config),
      last_crawl_time := (last_crawl_time s)(source_id \<mapsto> now1)\<rparr>,
    Inl AttributeError) \<and>
   snd (crawl_source due_scheduler ''1'' (Inr (PList [])) 1000 1000 0) = Inl AttributeError \<and>
   next_crawl_time (fst (crawl_source due_scheduler ''1'' (Inr (PList [])) 1000 1000 0)) ''1'' =
     Some 1000"
  by (simp add: crawl_source_def crawl_try_def crawl_except_def interval_or_default_def
      no_interval_attribute due_scheduler_def)





section \<open>Termination of the API pagination\<close>

lemma total_pages_one_page:
  assumes "number_of tot = Some (of_int n)" and "0 < n"
  shows "total_pages tot n = Inr 1"
proof (cases tot)
  case (PInt i)
  then have "i = n" using assms(1) by simp
  moreover have "(n + n - 1) div n = 1"
  proof -
    have "n + n - 1 = 1 * n + (n - 1)" by simp
    then have "(n + n - 1) div n = 1 + (n - 1) div n"
      using assms(2) by (metis div_mult_self3 less_irrefl)
    then show ?thesis using assms(2) by simp
  qed
  ultimately show ?thesis using PInt assms(2) by simp
next
  case (PBool b)
  then have "n = 1" using assms by (auto split: if_splits)
  then show ?thesis using PBool assms by (auto split: if_splits)
next
  case (PFloat x)
  then have x: "x = of_int n" using assms(1) by simp
  have "\<lfloor>(of_int n + of_int n - 1) / (of_int n :: rat)\<rfloor> = (n + n - 1) div n"
    by (metis floor_divide_of_int_eq of_int_1 of_int_add of_int_diff)
  moreover have "(n + n - 1) div n = 1"
  proof -
    have "n + n - 1 = 1 * n + (n - 1)" by simp
    then have "(n + n - 1) div n = 1 + (n - 1) div n"
      using assms(2) by (metis div_mult_self3 less_irrefl)
    then show ?thesis using assms(2) by simp
  qed
  ultimately show ?thesis using PFloat x assms(2) by simp
qed (use assms in auto)

text \<open>
  Claim C3. With pagination configured: when the page holds exactly \<open>page_size\<close> items
  and \<open>total_path\<close> leads, in the response dictionary, to a total equal to \<open>page_size\<close>,
  \<open>_check_has_more_pages\<close> answers false for every page number from 1, the first page
  that \<open>fetch\<close> asks for; and when the page holds fewer items than \<open>page_size\<close> it
  answers false whatever the response and the paths are.
\<close>

theorem check_has_more_pages_stops:
  "(is_set (page_param src) \<and> int items_count = page_size src \<and> is_set (total_path src) \<and>
    is_dict response_data \<and>
    follow response_data (split_on CHR ''.'' (the (total_path src))) = Inr (Some tot) \<and>
    number_of tot = Some (of_int (page_size src)) \<and> 1 \<le> current_page
    \<longrightarrow> \<not> check_has_more_pages src response_data current_page items_count) \<and>
   (int items_count < page_size src
    \<longrightarrow> \<not> check_has_more_pages src response_data current_page items_count)"
proof (intro conjI impI)
  assume a: "is_set (page_param src) \<and> int items_count = page_size src \<and>
    is_set (total_path src) \<and> is_dict response_data \<and>
    follow response_data (split_on CHR ''.'' (the (total_path src))) = Inr (Some tot) \<and>
    number_of tot = Some (of_int (page_size src)) \<and> 1 \<le> current_page"
  show "\<not> check_has_more_pages src response_data current_page items_count"
  proof (cases "items_count = 0")
    case True
    then show ?thesis by (simp add: check_has_more_pages_def)
  next
    case False
    then have "0 < page_size src" using a by linarith
    then have "total_pages tot (page_size src) = Inr 1"
      using a by (intro total_pages_one_page) auto
    then show ?thesis
      using a False by (simp add: check_has_more_pages_def)
  qed
next
  assume "int items_count < page_size src"
  then show "\<not> check_has_more_pages src response_data current_page items_count"
    by (simp add: check_has_more_pages_def)
qed

theorem check_has_more_pages_stops_witness:
  "follow (PDict [(''meta'', PDict [(''total'', PInt 2)]), (''articles'', PList [PDict [], PDict []])])
     (split_on CHR ''.'' ''meta.total'') = Inr (Some (PInt 2)) \<and>
   \<not> check_has_more_pages
       \<lparr>page_param = Some ''page'', page_size_param = Some ''pageSize'', page_size = 2,
        max_pages = 5, total_path = Some ''meta.total'', next_page_path = None\<rparr>
       (PDict [(''meta'', PDict [(''total'', PInt 2)]), (''articles'', PList [PDict [], PDict []])])
       1 2 \<and>
   \<not> check_has_more_pages
       \<lparr>page_param = Some ''page'', page_size_param = Some ''pageSize'', page_size = 2,
        max_pages = 5, total_path = Some ''meta.total'', next_page_path = None\<rparr>
       (PDict [(''meta'', PDict [(''total'', PInt 7)]), (''articles'', PList [PDict []])])
       1 1"
proof -
  let ?src = "\<lparr>page_param = Some ''page'', page_size_param = Some ''pageSize'', page_size = 2,
        max_pages = 5, total_path = Some ''meta.total'', next_page_path = None\<rparr>"
  let ?full = "PDict [(''meta'', PDict [(''total'', PInt 2)]), (''articles'', PList [PDict [], PDict []])]"
  let ?short = "PDict [(''meta'', PDict [(''total'', PInt 7)]), (''articles'', PList [PDict []])]"
  have f: "follow ?full (split_on CHR ''.'' ''meta.total'') = Inr (Some (PInt 2))"
    by (simp add: path_key_of_def isdigit_def is_digit_char_def is_decimal_def)
  have "\<not> check_has_more_pages ?src ?full 1 2"
    using check_has_more_pages_stops [of ?src 2 ?full "PInt 2" 1] f
    by (simp add: is_set_def)
  moreover have "\<not> check_has_more_pages ?src ?short 1 1"
    using check_has_more_pages_stops [of ?src 1 ?short "PInt 2" 1]
    by simp
  ultimately show ?thesis using f by simp
qed

section \<open>Exact and fuzzy duplicate detection\<close>

lemma strip_nonempty: "strip s \<noteq> [] \<Longrightarrow> s \<noteq> []"
  by (auto simp: strip_def)

lemma field_matches_title:
  assumes "dict_get candidate field = PStr ct" and "wanted = lower (strip ct)" and "wanted \<noteq> []"
  shows "field_matches wanted candidate field = Inr True"
proof -
  have "ct \<noteq> []" using assms(2,3) by (auto simp: lower_def strip_def)
  then show ?thesis using assms by (simp add: field_matches_def normalized_def)
qed

lemma exact_first_candidate:
  assumes "dict_get_default article ''title'' (PStr []) = PStr t"
    and "normalized (dict_get_default article ''url'' (PStr [])) = Inr u"
    and "dict_get candidate ''title'' = PStr ct"
    and "lower (strip t) = lower (strip ct)" and "lower (strip t) \<noteq> []"
    and "dict_item candidate ''id'' = Inr i"
  shows "check_exact_match article (candidate # rest) = Inr (True, i)"
proof -
  have "field_matches (lower (strip t)) candidate ''title'' = Inr True"
    using assms(3,4,5) by (intro field_matches_title) auto
  then show ?thesis
    using assms by (simp add: check_exact_match_def normalized_def duplicate_of_def)
qed

lemma field_matches_stored:
  assumes "str_or_falsy (dict_get c field)"
  shows "\<exists>b. field_matches wanted c field = Inr b"
  using assms by (cases "dict_get c field") (auto simp: field_matches_def normalized_def)

lemma duplicate_of_stored:
  assumes "stored_candidate c"
  shows "\<exists>j. duplicate_of c = Inr (True, j)"
  using assms by (auto simp: stored_candidate_def dict_has_def duplicate_of_def dict_item_def)

lemma exact_loop_finds:
  assumes "candidate \<in> set candidates" and "\<forall>c \<in> set candidates. stored_candidate c"
    and "field_matches title candidate ''title'' = Inr True"
  shows "\<exists>j. exact_loop title url' candidates = Inr (True, j)"
  using assms
proof (induction candidates)
  case Nil
  then show ?case by simp
next
  case (Cons c cs)
  have sc: "stored_candidate c" using Cons.prems(2) by simp
  obtain b1 where b1: "field_matches title c ''title'' = Inr b1"
    using sc field_matches_stored[of c "''title''" title] by (auto simp: stored_candidate_def)
  obtain b2 where b2: "field_matches url' c ''url'' = Inr b2"
    using sc field_matches_stored[of c "''url''" url'] by (auto simp: stored_candidate_def)
  obtain j where j: "duplicate_of c = Inr (True, j)"
    using duplicate_of_stored[OF sc] by blast
  show ?case
  proof (cases "b1 \<or> b2")
    case True
    then show ?thesis using b1 b2 j by (cases b1) auto
  next
    case False
    then have "candidate \<noteq> c" using b1 Cons.prems(3) by auto
    then have "\<exists>j. exact_loop title url' cs = Inr (True, j)"
      using Cons by auto
    then show ?thesis using False b1 b2 by auto
  qed
qed

lemma exact_any_candidate:
  assumes "dict_get_default article ''title'' (PStr []) = PStr t"
    and "normalized (dict_get_default article ''url'' (PStr [])) = Inr u"
    and "candidate \<in> set candidates" and "\<forall>c \<in> set candidates. stored_candidate c"
    and "dict_get candidate ''title'' = PStr ct"
    and "lower (strip t) = lower (strip ct)" and "lower (strip t) \<noteq> []"
  shows "\<exists>j. check_exact_match article candidates = Inr (True, j)"
proof -
  have "field_matches (lower (strip t)) candidate ''title'' = Inr True"
    using assms(5,6,7) by (intro field_matches_title) auto
  then have "\<exists>j. exact_loop (lower (strip t)) u candidates = Inr (True, j)"
    using assms(3,4) by (intro exact_loop_finds) auto
  then show ?thesis
    using assms by (auto simp: check_exact_match_def normalized_def)
qed

lemma find_duplicate_exact:
  assumes "use_exact_match d" and "check_exact_match article candidates = Inr (True, j)"
  shows "find_duplicate d minhash article candidates = Inr (True, j)"
  using assms by (simp add: find_duplicate_def)

lemma text_similarity_disjoint:
  assumes "\<not> shares_word (PStr s1) (PStr s2)"
  shows "text_similarity s1 s2 = 0"
proof -
  have "filter (\<lambda>w. w \<in> set (remdups (split_words (clean_text s2))))
          (remdups (split_words (clean_text s1))) = []"
    using assms by (auto simp: filter_empty_conv list_ex_iff)
  then show ?thesis
    by (simp add: text_similarity_def Let_def)
qed

lemma calculate_text_similarity_disjoint:
  assumes "\<not> shares_word x y"
  shows "calculate_text_similarity x y = Inr 0 \<or> (\<exists>e. calculate_text_similarity x y = Inl e)"
proof (cases x)
  case (PStr s1)
  show ?thesis
  proof (cases y)
    case (PStr s2)
    then show ?thesis
      using assms \<open>x = PStr s1\<close> text_similarity_disjoint[of s1 s2]
      by (simp add: calculate_text_similarity_def)
  qed (simp_all add: calculate_text_similarity_def \<open>x = PStr s1\<close>)
qed (simp_all add: calculate_text_similarity_def)

lemma calculate_similarity_disjoint:
  assumes "\<not> shares_word t1 t2" and "\<not> shares_word c1 c2"
  shows "calculate_similarity d t1 c1 t2 c2 = Inr 0 \<or> (\<exists>e. calculate_similarity d t1 c1 t2 c2 = Inl e)"
  using calculate_text_similarity_disjoint[OF assms(1)] calculate_text_similarity_disjoint[OF assms(2)]
  by (auto simp: calculate_similarity_def)

lemma fuzzy_loop_disjoint:
  assumes "\<forall>c \<in> set candidates.
      \<not> shares_word title (dict_get_default c ''title'' (PStr [])) \<and>
      \<not> shares_word content (dict_get_default c ''content'' (PStr []))"
  shows "fuzzy_loop d title content candidates 0 PNone = Inr (0, PNone) \<or>
         (\<exists>e. fuzzy_loop d title content candidates 0 PNone = Inl e)"
  using assms
proof (induction candidates)
  case Nil
  then show ?case by simp
next
  case (Cons c cs)
  have ih: "fuzzy_loop d title content cs 0 PNone = Inr (0, PNone) \<or>
         (\<exists>e. fuzzy_loop d title content cs 0 PNone = Inl e)"
    using Cons by simp
  have "calculate_similarity d title content (dict_get_default c ''title'' (PStr []))
          (dict_get_default c ''content'' (PStr [])) = Inr 0 \<or>
        (\<exists>e. calculate_similarity d title content (dict_get_default c ''title'' (PStr []))
          (dict_get_default c ''content'' (PStr [])) = Inl e)"
    using Cons.prems by (intro calculate_similarity_disjoint) auto
  then show ?case
    using ih by (auto simp: Let_def)
qed

lemma check_fuzzy_disjoint:
  assumes "\<forall>c \<in> set candidates.
      \<not> shares_word (dict_get_default article ''title'' (PStr []))
          (dict_get_default c ''title'' (PStr [])) \<and>
      \<not> shares_word (dict_get_default article ''content'' (PStr []))
          (dict_get_default c ''content'' (PStr []))"
  shows "check_fuzzy_match d article candidates \<noteq> Inr (True, i)"
  using fuzzy_loop_disjoint[OF assms, of d]
  by (auto simp: check_fuzzy_match_def Let_def)

lemma field_matches_same:
  assumes "str_or_falsy (dict_get c field)"
  shows "field_matches wanted c field = Inr (same_field wanted c field)"
  using assms
  by (cases "dict_get c field") (auto simp: field_matches_def normalized_def same_field_def)

lemma exact_loop_first:
  assumes "\<forall>b \<in> set before. stored_candidate b \<and> \<not> candidate_matches title url' b"
    and "stored_candidate c" and "candidate_matches title url' c"
    and "dict_item c ''id'' = Inr i"
  shows "exact_loop title url' (before @ c # rest) = Inr (True, i)"
  using assms(1)
proof (induction before)
  case Nil
  have "field_matches title c ''title'' = Inr (same_field title c ''title'')"
    and "field_matches url' c ''url'' = Inr (same_field url' c ''url'')"
    using assms(2) by (auto simp: stored_candidate_def intro: field_matches_same)
  then show ?case
    using assms(3,4)
    by (cases "same_field title c ''title''") (auto simp: candidate_matches_def duplicate_of_def)
next
  case (Cons b bs)
  have "field_matches title b ''title'' = Inr (same_field title b ''title'')"
    and "field_matches url' b ''url'' = Inr (same_field url' b ''url'')"
    using Cons.prems by (auto simp: stored_candidate_def intro: field_matches_same)
  moreover have "\<not> same_field title b ''title''" and "\<not> same_field url' b ''url''"
    using Cons.prems by (auto simp: candidate_matches_def)
  ultimately show ?case
    using Cons by simp
qed

lemma exact_loop_none:
  assumes "\<forall>c \<in> set candidates. stored_candidate c \<and> \<not> candidate_matches title url' c"
  shows "exact_loop title url' candidates = Inr (False, PNone)"
  using assms
proof (induction candidates)
  case Nil
  show ?case by simp
next
  case (Cons b bs)
  have "field_matches title b ''title'' = Inr (same_field title b ''title'')"
    and "field_matches url' b ''url'' = Inr (same_field url' b ''url'')"
    using Cons.prems by (auto simp: stored_candidate_def intro: field_matches_same)
  moreover have "\<not> same_field title b ''title''" and "\<not> same_field url' b ''url''"
    using Cons.prems by (auto simp: candidate_matches_def)
  ultimately show ?case
    using Cons by simp
qed

lemma candidate_matches_nonempty:
  "candidate_matches title url' c \<Longrightarrow> title \<noteq> [] \<or> url' \<noteq> []"
  by (auto simp: candidate_matches_def same_field_def split: pyval.splits)

lemma exact_first_match:
  assumes "dict_get_default article ''title'' (PStr []) = PStr t"
    and "normalized (dict_get_default article ''url'' (PStr [])) = Inr u"
    and "\<forall>b \<in> set before. stored_candidate b \<and> \<not> candidate_matches (lower (strip t)) u b"
    and "stored_candidate c" and "candidate_matches (lower (strip t)) u c"
    and "dict_item c ''id'' = Inr i"
  shows "check_exact_match article (before @ c # rest) = Inr (True, i)"
proof -
  have "lower (strip t) \<noteq> [] \<or> u \<noteq> []"
    using assms(5) by (rule candidate_matches_nonempty)
  moreover have "exact_loop (lower (strip t)) u (before @ c # rest) = Inr (True, i)"
    using assms(3,4,5,6) by (rule exact_loop_first)
  ultimately show ?thesis
    using assms(1,2) by (auto simp: check_exact_match_def normalized_def)
qed

lemma exact_no_match:
  assumes "dict_get_default article ''title'' (PStr []) = PStr t"
    and "normalized (dict_get_default article ''url'' (PStr [])) = Inr u"
    and "\<forall>c \<in> set candidates. stored_candidate c \<and> \<not> candidate_matches (lower (strip t)) u c"
  shows "check_exact_match article candidates = Inr (False, PNone)"
proof -
  have "exact_loop (lower (strip t)) u candidates = Inr (False, PNone)"
    using assms(3) by (rule exact_loop_none)
  then show ?thesis
    using assms(1,2) by (auto simp: check_exact_match_def normalized_def)
qed

lemma same_field_equal_titles:
  assumes "dict_get candidate field = PStr ct" and "wanted = lower (strip ct)"
  shows "same_field wanted candidate field \<longleftrightarrow> wanted \<noteq> []"
  using assms by (auto simp: same_field_def lower_def strip_def)

text \<open>
  Claim C4, as amended. The exact strategy compares titles and URLs after stripping the
  surrounding white space and lowercasing, and a value that is empty after that matches
  nothing. For an incoming article whose title and URL are strings (or missing) and a
  list of stored candidates: the strategy reports the id of the first candidate in list
  order that matches by title or URL, and \<open>_find_duplicate\<close> reports it whatever the
  fuzzy and MinHash switches are; when no candidate matches it reports no duplicate. A
  candidate whose title equals the article's after normalization matches by title
  exactly when that title is not empty: it is then reported when it is the first of the
  list, and some duplicate is reported when it stands anywhere in it; an article whose
  title is empty after stripping is reported only for a candidate with its URL. And when
  no candidate shares a word with the article, neither in the cleaned titles nor in the
  cleaned contents, the fuzzy strategy reports no duplicate, and neither does
  \<open>_find_duplicate\<close> when the other two strategies report none.
\<close>

theorem duplicate_strategies:
  "(dict_get_default article ''title'' (PStr []) = PStr t \<and>
    normalized (dict_get_default article ''url'' (PStr [])) = Inr u
    \<longrightarrow>
      (candidates = before @ candidate # rest \<and>
       (\<forall>b \<in> set before. stored_candidate b \<and> \<not> candidate_matches (lower (strip t)) u b) \<and>
       stored_candidate candidate \<and> candidate_matches (lower (strip t)) u candidate \<and>
       dict_item candidate ''id'' = Inr i
       \<longrightarrow> check_exact_match article candidates = Inr (True, i) \<and>
           (use_exact_match d \<longrightarrow> find_duplicate d minhash article candidates = Inr (True, i))) \<and>
      ((\<forall>c \<in> set candidates. stored_candidate c \<and> \<not> candidate_matches (lower (strip t)) u c)
       \<longrightarrow> check_exact_match article candidates = Inr (False, PNone)) \<and>
      (dict_get candidate ''title'' = PStr ct \<and> lower (strip t) = lower (strip ct)
       \<longrightarrow> (same_field (lower (strip t)) candidate ''title'' \<longleftrightarrow> lower (strip t) \<noteq> [])) \<and>
      (lower (strip t) = [] \<and>
       (\<forall>c \<in> set candidates. stored_candidate c \<and> \<not> same_field u c ''url'')
       \<longrightarrow> check_exact_match article candidates = Inr (False, PNone)) \<and>
      (use_exact_match d \<and> dict_get candidate ''title'' = PStr ct \<and>
       lower (strip t) = lower (strip ct) \<and> lower (strip t) \<noteq> []
       \<longrightarrow>
         (dict_item candidate ''id'' = Inr i
          \<longrightarrow> find_duplicate d minhash article (candidate # rest) = Inr (True, i)) \<and>
         (candidate \<in> set candidates \<and> (\<forall>c \<in> set candidates. stored_candidate c)
          \<longrightarrow> (\<exists>j. find_duplicate d minhash article candidates = Inr (True, j))))) \<and>
   ((\<forall>c \<in> set candidates.
        \<not> shares_word (dict_get_default article ''title'' (PStr []))
            (dict_get_default c ''title'' (PStr [])) \<and>
        \<not> shares_word (dict_get_default article ''content'' (PStr []))
            (dict_get_default c ''content'' (PStr [])))
    \<longrightarrow>
      (\<forall>j. check_fuzzy_match d article candidates \<noteq> Inr (True, j)) \<and>
      (\<not> use_exact_match d \<and> \<not> (use_minhash d \<and> fst minhash)
       \<longrightarrow> (\<forall>j. find_duplicate d minhash article candidates \<noteq> Inr (True, j))))"
proof -
  have exact: "(candidates = before @ candidate # rest \<and>
       (\<forall>b \<in> set before. stored_candidate b \<and> \<not> candidate_matches (lower (strip t)) u b) \<and>
       stored_candidate candidate \<and> candidate_matches (lower (strip t)) u candidate \<and>
       dict_item candidate ''id'' = Inr i
       \<longrightarrow> check_exact_match article candidates = Inr (True, i) \<and>
           (use_exact_match d \<longrightarrow> find_duplicate d minhash article candidates = Inr (True, i))) \<and>
      ((\<forall>c \<in> set candidates. stored_candidate c \<and> \<not> candidate_matches (lower (strip t)) u c)
       \<longrightarrow> check_exact_match article candidates = Inr (False, PNone)) \<and>
      (dict_get candidate ''title'' = PStr ct \<and> lower (strip t) = lower (strip ct)
       \<longrightarrow> (same_field (lower (strip t)) candidate ''title'' \<longleftrightarrow> lower (strip t) \<noteq> [])) \<and>
      (lower (strip t) = [] \<and>
       (\<forall>c \<in> set candidates. stored_candidate c \<and> \<not> same_field u c ''url'')
       \<longrightarrow> check_exact_match article candidates = Inr (False, PNone)) \<and>
      (use_exact_match d \<and> dict_get candidate ''title'' = PStr ct \<and>
       lower (strip t) = lower (strip ct) \<and> lower (strip t) \<noteq> []
       \<longrightarrow>
         (dict_item candidate ''id'' = Inr i
          \<longrightarrow> find_duplicate d minhash article (candidate # rest) = Inr (True, i)) \<and>
         (candidate \<in> set candidates \<and> (\<forall>c \<in> set candidates. stored_candidate c)
          \<longrightarrow> (\<exists>j. find_duplicate d minhash article candidates = Inr (True, j))))"
    if a: "dict_get_default article ''title'' (PStr []) = PStr t \<and>
      normalized (dict_get_default article ''url'' (PStr [])) = Inr u"
  proof -
    have e1: "check_exact_match article candidates = Inr (True, i) \<and>
        (use_exact_match d \<longrightarrow> find_duplicate d minhash article candidates = Inr (True, i))"
      if h: "candidates = before @ candidate # rest \<and>
        (\<forall>b \<in> set before. stored_candidate b \<and> \<not> candidate_matches (lower (strip t)) u b) \<and>
        stored_candidate candidate \<and> candidate_matches (lower (strip t)) u candidate \<and>
        dict_item candidate ''id'' = Inr i"
    proof -
      have "check_exact_match article (before @ candidate # rest) = Inr (True, i)"
        using a h exact_first_match [of article t u before candidate i rest] by blast
      then have "check_exact_match article candidates = Inr (True, i)"
        using h by simp
      then show ?thesis
        using find_duplicate_exact by blast
    qed
    have e2: "check_exact_match article candidates = Inr (False, PNone)"
      if "\<forall>c \<in> set candidates. stored_candidate c \<and> \<not> candidate_matches (lower (strip t)) u c"
      using a that exact_no_match [of article t u candidates] by blast
    have e3: "same_field (lower (strip t)) candidate ''title'' \<longleftrightarrow> lower (strip t) \<noteq> []"
      if "dict_get candidate ''title'' = PStr ct \<and> lower (strip t) = lower (strip ct)"
      using that same_field_equal_titles [of candidate "''title''" ct "lower (strip t)"] by blast
    have e4: "check_exact_match article candidates = Inr (False, PNone)"
      if h: "lower (strip t) = [] \<and>
        (\<forall>c \<in> set candidates. stored_candidate c \<and> \<not> same_field u c ''url'')"
    proof -
      have "\<forall>c \<in> set candidates. stored_candidate c \<and> \<not> candidate_matches (lower (strip t)) u c"
        using h by (auto simp: candidate_matches_def same_field_def split: pyval.splits)
      then show ?thesis by (rule e2)
    qed
    have e5: "(dict_item candidate ''id'' = Inr i
          \<longrightarrow> find_duplicate d minhash article (candidate # rest) = Inr (True, i)) \<and>
         (candidate \<in> set candidates \<and> (\<forall>c \<in> set candidates. stored_candidate c)
          \<longrightarrow> (\<exists>j. find_duplicate d minhash article candidates = Inr (True, j)))"
      if h: "use_exact_match d \<and> dict_get candidate ''title'' = PStr ct \<and>
        lower (strip t) = lower (strip ct) \<and> lower (strip t) \<noteq> []"
    proof (intro conjI impI)
      assume "dict_item candidate ''id'' = Inr i"
      then have "check_exact_match article (candidate # rest) = Inr (True, i)"
        using a h exact_first_candidate [of article t u candidate ct i rest] by blast
      then show "find_duplicate d minhash article (candidate # rest) = Inr (True, i)"
        using h find_duplicate_exact by blast
    next
      assume "candidate \<in> set candidates \<and> (\<forall>c \<in> set candidates. stored_candidate c)"
      then have "\<exists>j. check_exact_match article candidates = Inr (True, j)"
        using a h exact_any_candidate [of article t u candidate candidates ct] by blast
      then show "\<exists>j. find_duplicate d minhash article candidates = Inr (True, j)"
        using h find_duplicate_exact by blast
    qed
    show ?thesis
      using e1 e2 e3 e4 e5 by (intro conjI impI) blast+
  qed
  have fuzzy: "(\<forall>j. check_fuzzy_match d article candidates \<noteq> Inr (True, j)) \<and>
      (\<not> use_exact_match d \<and> \<not> (use_minhash d \<and> fst minhash)
       \<longrightarrow> (\<forall>j. find_duplicate d minhash article candidates \<noteq> Inr (True, j)))"
    if b: "\<forall>c \<in> set candidates.
        \<not> shares_word (dict_get_default article ''title'' (PStr []))
            (dict_get_default c ''title'' (PStr [])) \<and>
        \<not> shares_word (dict_get_default article ''content'' (PStr []))
            (dict_get_default c ''content'' (PStr []))"
  proof (intro conjI impI allI)
    fix j
    show f: "check_fuzzy_match d article candidates \<noteq> Inr (True, j)"
      using b by (rule check_fuzzy_disjoint)
    assume "\<not> use_exact_match d \<and> \<not> (use_minhash d \<and> fst minhash)"
    then show "find_duplicate d minhash article candidates \<noteq> Inr (True, j)"
      using f by (auto simp: find_duplicate_def split: sum.splits bool.splits)
  qed
  show ?thesis
    by (rule conjI; rule impI; (erule exact | erule fuzzy))
qed

theorem duplicate_strategies_witness:
  "find_duplicate exact_only (False, PNone) storm_article [far_candidate, storm_candidate] =
     Inr (True, PInt 7) \<and>
   check_exact_match storm_article [far_candidate] = Inr (False, PNone) \<and>
   check_fuzzy_match default_detector rain_article [market_candidate] = Inr (False, PNone)"
proof -
  have a: "dict_get_default storm_article ''title'' (PStr []) = PStr '' Storm Hits Coast '' \<and>
      normalized (dict_get_default storm_article ''url'' (PStr [])) = Inr ''http://a.example/1''"
    by code_simp
  have h1: "[far_candidate, storm_candidate] = [far_candidate] @ storm_candidate # [] \<and>
      (\<forall>b \<in> set [far_candidate]. stored_candidate b \<and>
         \<not> candidate_matches (lower (strip '' Storm Hits Coast '')) ''http://a.example/1'' b) \<and>
      stored_candidate storm_candidate \<and>
      candidate_matches (lower (strip '' Storm Hits Coast '')) ''http://a.example/1'' storm_candidate \<and>
      dict_item storm_candidate ''id'' = Inr (PInt 7)"
    by code_simp
  have u: "use_exact_match exact_only"
    by code_simp
  have first: "find_duplicate exact_only (False, PNone) storm_article
      [far_candidate, storm_candidate] = Inr (True, PInt 7)"
    using duplicate_strategies [of storm_article "'' Storm Hits Coast ''" "''http://a.example/1''"
        "[far_candidate, storm_candidate]" "[far_candidate]" storm_candidate "[]" "PInt 7"
        exact_only "(False, PNone)"] a h1 u
    by blast
  have h2: "\<forall>c \<in> set [far_candidate]. stored_candidate c \<and>
      \<not> candidate_matches (lower (strip '' Storm Hits Coast '')) ''http://a.example/1'' c"
    by code_simp
  have none: "check_exact_match storm_article [far_candidate] = Inr (False, PNone)"
    using duplicate_strategies [of storm_article "'' Storm Hits Coast ''" "''http://a.example/1''"
        "[far_candidate]"] a h2
    by blast
  have h3: "\<forall>c \<in> set [market_candidate].
      \<not> shares_word (dict_get_default rain_article ''title'' (PStr []))
          (dict_get_default c ''title'' (PStr [])) \<and>
      \<not> shares_word (dict_get_default rain_article ''content'' (PStr []))
          (dict_get_default c ''content'' (PStr []))"
    by code_simp
  have "check_fuzzy_match default_detector rain_article [market_candidate] \<noteq> Inr (True, PInt 8)"
    using duplicate_strategies [of rain_article _ _ "[market_candidate]" _ _ _ _ default_detector
        "(False, PNone)"] h3
    by blast
  moreover have "check_fuzzy_match default_detector rain_article [market_candidate] =
      Inr (False, PNone) \<or>
    check_fuzzy_match default_detector rain_article [market_candidate] = Inr (True, PInt 8)"
    by code_simp
  ultimately show ?thesis
    using first none by blast
qed

text \<open>
  The claim as stated fails for titles that are empty after stripping: the titles of
  the two articles below are equal after normalization, and the exact strategy reports
  no duplicate.
\<close>

theorem blank_titles_counterexample:
  "normalized (dict_get blank_article ''title'') = normalized (dict_get blank_candidate ''title'') \<and>
   check_exact_match blank_article [blank_candidate] = Inr (False, PNone) \<and>
   find_duplicate exact_only (False, PNone) blank_article [blank_candidate] = Inr (False, PNone)"
  by code_simp

section \<open>The category distribution\<close>

lemma sum_counts_over:
  assumes "set (map g rows) \<subseteq> set ks" and "distinct ks"
  shows "sum_list (map (\<lambda>n. length (filter (\<lambda>r. g r = n) rows)) ks) = length rows"
proof -
  have "(\<lambda>n. length (filter (\<lambda>r. g r = n) rows)) = count_list (map g rows)"
    by (auto simp: fun_eq_iff count_list_eq_length_filter filter_map comp_def eq_commute)
  then have "sum_list (map (\<lambda>n. length (filter (\<lambda>r. g r = n) rows)) ks)
      = sum (count_list (map g rows)) (set ks)"
    using assms(2) by (simp add: sum_list_distinct_conv_sum_set)
  also have "\<dots> = length (map g rows)"
    using assms(1) by (intro sum_count_set) auto
  finally show ?thesis by simp
qed

lemma group_counts_sum: "sum_list (map snd (group_by_name rows)) = length rows"
proof -
  have "sum_list (map snd (group_by_name rows)) =
      sum_list (map (\<lambda>n. length (filter (\<lambda>r. fst r = n) rows)) (remdups (map fst rows)))"
    by (simp add: group_by_name_def comp_def)
  also have "\<dots> = length rows"
    by (intro sum_counts_over) auto
  finally show ?thesis .
qed

lemma rearranged_counts_sum:
  assumes "mset ordered = mset rows"
  shows "sum_list (map snd ordered) = sum_list (map (snd :: string \<times> nat \<Rightarrow> nat) rows)"
proof -
  have "mset (map snd ordered) = mset (map snd rows)"
    using assms by (metis mset_map)
  then show ?thesis
    by (metis sum_mset_sum_list)
qed

lemma one_category_each:
  assumes "distinct (articles_table db)"
    and "\<forall>a \<in> set (articles_table db). length (filter (\<lambda>r. snd r = a) (joined_rows db)) = 1"
  shows "length (joined_rows db) = length (articles_table db)"
proof -
  have sub: "set (map snd (joined_rows db)) \<subseteq> set (articles_table db)"
    by (auto simp: joined_rows_def split: if_splits)
  have "length (joined_rows db) =
      sum_list (map (\<lambda>a. length (filter (\<lambda>r. snd r = a) (joined_rows db))) (articles_table db))"
    using sum_counts_over[OF sub assms(1)] by simp
  also have "\<dots> = sum_list (map (\<lambda>a. 1) (articles_table db))"
    using assms(2) by (intro arg_cong[where f = sum_list] map_cong) auto
  also have "\<dots> = length (articles_table db)"
    by (simp add: sum_list_triv)
  finally show ?thesis .
qed

lemma stable_order_orders: "orders_by_count stable_order"
  by (simp add: orders_by_count_def stable_order_def)

text \<open>
  Claim C5, as amended. For every database, and whatever order the database gives to
  groups with equal counts: the counts of the returned categories add up to the number
  of joined article-category rows (to nothing when there is no article), the entries
  come in descending order of their counts, and the percentage of each entry is
  \<open>round((count / total) * 100, 2)\<close>, computed in floating point, for the total number of
  articles. The counts add up to that total when the article ids are distinct and every
  article has exactly one joined row, that is, exactly one category.
\<close>

theorem category_distribution:
  "orders_by_count order_by \<longrightarrow>
   sum_list (map entry_count (get_category_distribution order_by db)) =
     (if articles_table db = [] then 0 else length (joined_rows db)) \<and>
   sorted (map (\<lambda>e. - int (entry_count e)) (get_category_distribution order_by db)) \<and>
   (\<forall>e \<in> set (get_category_distribution order_by db).
      entry_percentage e =
        py_round2 (float_mul (true_div (entry_count e) (length (articles_table db))) 100)) \<and>
   (distinct (articles_table db) \<and>
    (\<forall>a \<in> set (articles_table db). length (filter (\<lambda>r. snd r = a) (joined_rows db)) = 1)
    \<longrightarrow> sum_list (map entry_count (get_category_distribution order_by db)) =
          length (articles_table db))"
proof
  assume o: "orders_by_count order_by"
  let ?rows = "group_by_name (joined_rows db)"
  have m: "mset (order_by ?rows) = mset ?rows"
    and srt: "sorted (map (\<lambda>(cname, cnt). - int cnt) (order_by ?rows))"
    using o by (simp_all add: orders_by_count_def)
  have counts: "map entry_count (get_category_distribution order_by db) =
      (if articles_table db = [] then [] else map snd (order_by ?rows))"
    by (auto simp: get_category_distribution_def Let_def comp_def)
  have s: "sum_list (map entry_count (get_category_distribution order_by db)) =
     (if articles_table db = [] then 0 else length (joined_rows db))"
    unfolding counts using rearranged_counts_sum[OF m] by (simp add: group_counts_sum)
  have "map (\<lambda>e. - int (entry_count e)) (get_category_distribution order_by db) =
      (if articles_table db = [] then []
       else map (\<lambda>(cname, cnt). - int cnt) (order_by ?rows))"
    by (auto simp: get_category_distribution_def Let_def comp_def case_prod_beta)
  then have d: "sorted (map (\<lambda>e. - int (entry_count e)) (get_category_distribution order_by db))"
    using srt by simp
  have p: "\<forall>e \<in> set (get_category_distribution order_by db).
      entry_percentage e =
        py_round2 (float_mul (true_div (entry_count e) (length (articles_table db))) 100)"
    by (auto simp: get_category_distribution_def Let_def percentage_of_def)
  have "sum_list (map entry_count (get_category_distribution order_by db)) =
      length (articles_table db)"
    if "distinct (articles_table db) \<and>
      (\<forall>a \<in> set (articles_table db). length (filter (\<lambda>r. snd r = a) (joined_rows db)) = 1)"
    using that s one_category_each[of db] by auto
  then show "sum_list (map entry_count (get_category_distribution order_by db)) =
     (if articles_table db = [] then 0 else length (joined_rows db)) \<and>
   sorted (map (\<lambda>e. - int (entry_count e)) (get_category_distribution order_by db)) \<and>
   (\<forall>e \<in> set (get_category_distribution order_by db).
      entry_percentage e =
        py_round2 (float_mul (true_div (entry_count e) (length (articles_table db))) 100)) \<and>
   (distinct (articles_table db) \<and>
    (\<forall>a \<in> set (articles_table db). length (filter (\<lambda>r. snd r = a) (joined_rows db)) = 1)
    \<longrightarrow> sum_list (map entry_count (get_category_distribution order_by db)) =
          length (articles_table db))"
    using s d p by blast
qed

theorem category_distribution_witness:
  "distinct (articles_table one_category_db) \<and>
   sum_list (map entry_count (get_category_distribution stable_order one_category_db)) =
     length (articles_table one_category_db) \<and>
   get_category_distribution stable_order one_category_db =
     [\<lparr>entry_category = ''politics'', entry_count = 2,
        entry_percentage = to_double (6667 / 100)\<rparr>,
      \<lparr>entry_category = ''business'', entry_count = 1,
        entry_percentage = to_double (3333 / 100)\<rparr>] \<and>
   percentage_of 23 160 = to_double (1437 / 100)"
proof -
  have d: "distinct (articles_table one_category_db)"
    by code_simp
  have o: "\<forall>a \<in> set (articles_table one_category_db).
      length (filter (\<lambda>r. snd r = a) (joined_rows one_category_db)) = 1"
    by code_simp
  have v: "get_category_distribution stable_order one_category_db =
     [\<lparr>entry_category = ''politics'', entry_count = 2,
        entry_percentage = to_double (6667 / 100)\<rparr>,
      \<lparr>entry_category = ''business'', entry_count = 1,
        entry_percentage = to_double (3333 / 100)\<rparr>]"
    by code_simp
  have f: "percentage_of 23 160 = to_double (1437 / 100)"
    by code_simp
  show ?thesis
    using category_distribution [of stable_order one_category_db] stable_order_orders d o v f
    by blast
qed

text \<open>
  The claim as stated fails where an article belongs to two categories: one article,
  and counts that add up to two.
\<close>

theorem two_categories_counterexample:
  "length (articles_table two_category_db) = 1 \<and>
   map entry_count (get_category_distribution stable_order two_category_db) = [1, 1] \<and>
   sum_list (map entry_count (get_category_distribution stable_order two_category_db)) = 2"
  by code_simp

section \<open>The fallback of the classifier\<close>

lemma dict_get_set_same: "dict_get (dict_set d k v) k = v"
  by (induction d) (auto simp: dict_get_def)

lemma dict_get_set_other: "k' \<noteq> k \<Longrightarrow> dict_get (dict_set d k v) k' = dict_get d k'"
  by (induction d) (auto simp: dict_get_def)

text \<open>
  Claim C6, as amended. For every article with neither content nor title: an enabled
  classifier, when the article has no categories yet or \<open>override_existing\<close> is set,
  returns the article with \<open>categories\<close> equal to the one default category and every
  other field as it was, so that no classification confidence is recorded (the article
  keeps the one it had, if any); a disabled classifier, or one that finds categories
  and must not override them, returns the article unchanged.
\<close>

theorem classifier_fallback:
  "(\<not> truthy (dict_get article ''content'') \<and> \<not> truthy (dict_get article ''title'') \<and>
    enabled c \<and> (\<not> truthy (dict_get article ''categories'') \<or> override_existing c)
    \<longrightarrow> process c strategies article =
          dict_set article ''categories'' (PList [PStr (default_category c)]) \<and>
        dict_get (process c strategies article) ''categories'' = PList [PStr (default_category c)] \<and>
        (\<forall>k. k \<noteq> ''categories'' \<longrightarrow> dict_get (process c strategies article) k = dict_get article k) \<and>
        classification_confidence (process c strategies article) = classification_confidence article) \<and>
   (\<not> enabled c \<or> (truthy (dict_get article ''categories'') \<and> \<not> override_existing c)
    \<longrightarrow> process c strategies article = article)"
  by (auto simp: process_def default_categories_def dict_get_set_same dict_get_set_other
      classification_confidence_def)

theorem classifier_fallback_witness:
  "\<not> truthy (dict_get empty_article ''content'') \<and> \<not> truthy (dict_get empty_article ''title'') \<and>
   enabled default_classifier \<and> \<not> truthy (dict_get empty_article ''categories'') \<and>
   dict_get (process default_classifier (Inr []) empty_article) ''categories'' =
     PList [PStr ''general''] \<and>
   dict_get (process default_classifier (Inr []) empty_article) ''id'' = PInt 1"
proof -
  have h: "\<not> truthy (dict_get empty_article ''content'') \<and>
      \<not> truthy (dict_get empty_article ''title'') \<and> enabled default_classifier \<and>
      \<not> truthy (dict_get empty_article ''categories'')"
    by code_simp
  have d: "default_category default_classifier = ''general''"
    by code_simp
  have i: "dict_get empty_article ''id'' = PInt 1"
    by code_simp
  have "dict_get (process default_classifier (Inr []) empty_article) ''categories'' =
      PList [PStr (default_category default_classifier)] \<and>
    (\<forall>k. k \<noteq> ''categories'' \<longrightarrow>
       dict_get (process default_classifier (Inr []) empty_article) k = dict_get empty_article k)"
    using classifier_fallback [of empty_article default_classifier "Inr []"] h by blast
  then have "dict_get (process default_classifier (Inr []) empty_article) ''categories'' =
      PList [PStr ''general''] \<and>
    dict_get (process default_classifier (Inr []) empty_article) ''id'' = PInt 1"
    using d i by simp
  then show ?thesis using h by blast
qed

text \<open>
  The claim as stated fails in its second half: for the article below the classifier
  sets the default category and records no confidence at all. The confidence 0.0 is
  what \<open>_classify_article\<close> returns when no strategy has a result, and \<open>process\<close> does
  not call it for an article without content and title.
\<close>

theorem no_confidence_counterexample:
  "process default_classifier (Inr []) empty_article =
     [(''id'', PInt 1), (''title'', PStr []), (''content'', PNone),
      (''categories'', PList [PStr ''general''])] \<and>
   classification_confidence (process default_classifier (Inr []) empty_article) = None \<and>
   classify_article default_classifier [] = ([''general''], 0)"
  by code_simp

section \<open>The extractive summary\<close>

lemma slice_to_take: "\<exists>m. slice_to n xs = take m xs"
  by (auto simp: slice_to_def)

lemma scored_sorted_fst:
  "set (map fst (sort_key k (map (\<lambda>s. (s, f s)) xs))) = set xs"
  by (simp add: image_image)

lemma scored_pairs:
  "p \<in> set (sort_key k (map (\<lambda>s. (s, f s)) xs)) \<Longrightarrow> snd p = f (fst p)"
  by auto

lemma top_subset: "set (top_sentences keywords sentences n) \<subseteq> set sentences"
proof
  fix x
  let ?l = "sort_key (\<lambda>(sentence, score :: rat). - score)
      (map (\<lambda>sentence. (sentence, sentence_score keywords sentence)) sentences)"
  assume x: "x \<in> set (top_sentences keywords sentences n)"
  obtain m where m: "slice_to n ?l = take m ?l"
    using slice_to_take by blast
  obtain p where p: "p \<in> set (take m ?l)" "fst p = x"
    using x unfolding top_sentences_def m by auto
  have "p \<in> set ?l"
    using p(1) by (rule in_set_takeD)
  then have "fst p \<in> set (map fst ?l)"
    by (simp only: set_map) (rule imageI)
  then show "x \<in> set sentences"
    unfolding scored_sorted_fst p(2) .
qed

lemma top_scores:
  assumes "s \<in> set (top_sentences keywords sentences n)"
    and "s' \<in> set sentences" and "s' \<notin> set (top_sentences keywords sentences n)"
  shows "sentence_score keywords s' \<le> sentence_score keywords s"
proof -
  let ?k = "\<lambda>(sentence, score :: rat). - score"
  let ?l = "sort_key ?k (map (\<lambda>sentence. (sentence, sentence_score keywords sentence)) sentences)"
  obtain m where m: "slice_to n ?l = take m ?l"
    using slice_to_take by blast
  have top: "top_sentences keywords sentences n = map fst (take m ?l)"
    by (simp add: top_sentences_def m)
  obtain p where p: "p \<in> set (take m ?l)" "fst p = s"
    using assms(1) unfolding top by auto
  have "p \<in> set ?l" using p(1) by (meson in_set_takeD)
  then have ps: "snd p = sentence_score keywords s"
    using scored_pairs[of p ?k "sentence_score keywords" sentences] p(2) by simp
  have "(s', sentence_score keywords s') \<in> set ?l"
    using assms(2) by auto
  moreover have "(s', sentence_score keywords s') \<notin> set (take m ?l)"
    using assms(3) unfolding top by force
  ultimately have q: "(s', sentence_score keywords s') \<in> set (drop m ?l)"
    by (metis Un_iff append_take_drop_id set_append)
  have "sorted (map ?k (take m ?l @ drop m ?l))"
    by simp
  then have "\<forall>x \<in> set (take m ?l). \<forall>y \<in> set (drop m ?l). ?k x \<le> ?k y"
    unfolding map_append sorted_append by auto
  then have "?k p \<le> ?k (s', sentence_score keywords s')"
    using p(1) q by blast
  then show ?thesis
    using ps by (cases p) auto
qed

lemma top_card:
  assumes "0 \<le> n"
  shows "card (set (top_sentences keywords sentences n)) \<le> nat n"
proof -
  have "card (set (top_sentences keywords sentences n)) \<le> length (top_sentences keywords sentences n)"
    by (rule card_length)
  also have "\<dots> \<le> nat n"
    using assms by (simp add: top_sentences_def slice_to_def)
  finally show ?thesis .
qed

lemma top_distinct_length:
  assumes "0 \<le> n" and "n < int (length sentences)" and "distinct sentences"
  shows "length (filter (\<lambda>s. s \<in> set (top_sentences keywords sentences n)) sentences) = nat n"
proof -
  let ?k = "\<lambda>(sentence, score :: rat). - score"
  let ?l = "sort_key ?k (map (\<lambda>sentence. (sentence, sentence_score keywords sentence)) sentences)"
  have top: "top_sentences keywords sentences n = take (nat n) (map fst ?l)"
    using assms(1) by (simp add: top_sentences_def slice_to_def take_map)
  have "set (map fst ?l) = set sentences"
    by (rule scored_sorted_fst)
  moreover have "length (map fst ?l) = length sentences"
    by simp
  ultimately have "card (set (map fst ?l)) = length (map fst ?l)"
    using assms(3) by (simp add: distinct_card)
  then have "distinct (map fst ?l)"
    by (rule card_distinct)
  then have d: "distinct (top_sentences keywords sentences n)"
    unfolding top by (rule distinct_take)
  have len: "length (top_sentences keywords sentences n) = nat n"
    unfolding top using assms(1,2) by simp
  have "length (filter (\<lambda>s. s \<in> set (top_sentences keywords sentences n)) sentences) =
      card ({s. s \<in> set (top_sentences keywords sentences n)} \<inter> set sentences)"
    using assms(3) by (rule distinct_length_filter)
  also have "{s. s \<in> set (top_sentences keywords sentences n)} \<inter> set sentences =
      set (top_sentences keywords sentences n)"
    using top_subset [of "keywords" sentences n] by auto
  also have "card (set (top_sentences keywords sentences n)) = nat n"
    using d len by (simp add: distinct_card)
  finally show ?thesis .
qed

text \<open>
  Claim C7, as amended. When the text has no sentence or at most \<open>max_sentences\<close>
  sentences, \<open>generate_summary\<close> returns its sentences, each stripped, joined by single
  blanks; this is the text itself exactly when the text already has that form. When
  there are more sentences, it returns, joined by single blanks, the sentences of the
  text in their original order that are among the top sentences: the first
  \<open>max_sentences\<close> of the sentences ordered by descending score, where the score of a
  sentence is the number of the 20 most frequent keywords occurring in it divided by the
  number of its words. Every top sentence scores at least as high as every sentence
  that is not one, there are at most \<open>max_sentences\<close> different top sentences, and
  when the sentences of the text are pairwise different exactly \<open>max_sentences\<close>
  sentences are returned.
\<close>

theorem summary_sentences:
  "(extract_sentences text = [] \<or> int (length (extract_sentences text)) \<le> max_sentences
    \<longrightarrow> generate_summary text max_sentences = join '' '' (extract_sentences text) \<and>
        (generate_summary text max_sentences = text \<longleftrightarrow> text = join '' '' (extract_sentences text))) \<and>
   (extract_sentences text \<noteq> [] \<and> max_sentences < int (length (extract_sentences text))
    \<longrightarrow> generate_summary text max_sentences =
          join '' '' (filter (\<lambda>s. s \<in> set (top_sentences (extract_keywords text 20 3)
                                            (extract_sentences text) max_sentences))
                        (extract_sentences text)) \<and>
        set (top_sentences (extract_keywords text 20 3) (extract_sentences text) max_sentences)
          \<subseteq> set (extract_sentences text) \<and>
        (\<forall>s \<in> set (top_sentences (extract_keywords text 20 3) (extract_sentences text) max_sentences).
           \<forall>s' \<in> set (extract_sentences text).
             s' \<notin> set (top_sentences (extract_keywords text 20 3) (extract_sentences text) max_sentences)
             \<longrightarrow> sentence_score (extract_keywords text 20 3) s'
                   \<le> sentence_score (extract_keywords text 20 3) s) \<and>
        (0 \<le> max_sentences
         \<longrightarrow> card (set (top_sentences (extract_keywords text 20 3) (extract_sentences text)
                          max_sentences)) \<le> nat max_sentences) \<and>
        (0 \<le> max_sentences \<and> distinct (extract_sentences text)
         \<longrightarrow> length (filter (\<lambda>s. s \<in> set (top_sentences (extract_keywords text 20 3)
                                             (extract_sentences text) max_sentences))
                         (extract_sentences text)) = nat max_sentences))"
proof (intro conjI impI)
  assume a: "extract_sentences text = [] \<or> int (length (extract_sentences text)) \<le> max_sentences"
  show g: "generate_summary text max_sentences = join '' '' (extract_sentences text)"
    using a by (auto simp: generate_summary_def Let_def extract_sentences_def)
  show "generate_summary text max_sentences = text \<longleftrightarrow> text = join '' '' (extract_sentences text)"
    unfolding g by auto
next
  assume b: "extract_sentences text \<noteq> [] \<and> max_sentences < int (length (extract_sentences text))"
  then have "text \<noteq> []" by (auto simp: extract_sentences_def)
  then show "generate_summary text max_sentences =
          join '' '' (filter (\<lambda>s. s \<in> set (top_sentences (extract_keywords text 20 3)
                                            (extract_sentences text) max_sentences))
                        (extract_sentences text))"
    using b by (simp add: generate_summary_def Let_def)
  show "set (top_sentences (extract_keywords text 20 3) (extract_sentences text) max_sentences)
          \<subseteq> set (extract_sentences text)"
    by (rule top_subset)
  show "\<forall>s \<in> set (top_sentences (extract_keywords text 20 3) (extract_sentences text) max_sentences).
           \<forall>s' \<in> set (extract_sentences text).
             s' \<notin> set (top_sentences (extract_keywords text 20 3) (extract_sentences text) max_sentences)
             \<longrightarrow> sentence_score (extract_keywords text 20 3) s'
                   \<le> sentence_score (extract_keywords text 20 3) s"
    using top_scores by blast
  {
    assume "0 \<le> max_sentences"
    then show "card (set (top_sentences (extract_keywords text 20 3) (extract_sentences text)
                          max_sentences)) \<le> nat max_sentences"
      by (rule top_card)
  }
  {
    assume "0 \<le> max_sentences \<and> distinct (extract_sentences text)"
    then show "length (filter (\<lambda>s. s \<in> set (top_sentences (extract_keywords text 20 3)
                                             (extract_sentences text) max_sentences))
                         (extract_sentences text)) = nat max_sentences"
      using b by (intro top_distinct_length) auto
  }
qed

theorem summary_sentences_witness:
  "int (length (extract_sentences plain_text)) \<le> 3 \<and>
   generate_summary plain_text 3 = plain_text \<and>
   extract_sentences weather_text \<noteq> [] \<and> 2 < int (length (extract_sentences weather_text)) \<and>
   generate_summary weather_text 2 = ''Rain fell. Sun?''"
proof -
  have h1: "int (length (extract_sentences plain_text)) \<le> 3"
    by code_simp
  have j1: "join '' '' (extract_sentences plain_text) = plain_text"
    by code_simp
  have r1: "generate_summary plain_text 3 = plain_text"
    using summary_sentences [of plain_text 3] h1 j1 by simp
  have h2: "extract_sentences weather_text \<noteq> [] \<and> 2 < int (length (extract_sentences weather_text))"
    by code_simp
  have j2: "join '' '' (filter (\<lambda>s. s \<in> set (top_sentences (extract_keywords weather_text 20 3)
                                            (extract_sentences weather_text) 2))
                        (extract_sentences weather_text)) = ''Rain fell. Sun?''"
    by code_simp
  have r2: "generate_summary weather_text 2 = ''Rain fell. Sun?''"
    using summary_sentences [of weather_text 2] h2 j2 by simp
  show ?thesis
    using h1 r1 h2 r2 by blast
qed

text \<open>
  The claim as stated fails in its first half: the text below has two sentences, which
  is at most three, and the summary differs from it in the blanks between them.
\<close>

theorem spaced_text_counterexample:
  "int (length (extract_sentences spaced_text)) \<le> 3 \<and>
   generate_summary spaced_text 3 = ''First point. Second point.'' \<and>
   generate_summary spaced_text 3 \<noteq> spaced_text"
  by code_simp

end
